theory Spec2Isabelle
  imports Main
begin

section \<open>JavaScript values as the configuration code sees them\<close>

text \<open>
  The configuration model of \<^verbatim>\<open>src/consumer/bit-config/abstract-bit-config.js\<close> holds
  values that come from parsed JSON files and from callers, so every field is a dynamically
  typed value. An object is the list of its own enumerable properties in the order
  \<^verbatim>\<open>Object.keys\<close> reports them (array indices first, in ascending order, then the
  other names in the order of their creation); a property whose value is \<^verbatim>\<open>undefined\<close>
  is still a property. Numbers are the integers a configuration file holds.
\<close>

datatype jsval =
    JUndefined
  | JNull
  | JBool bool
  | JNum int
  | JStr string
  | JArr "jsval list"
  | JObj "(string \<times> jsval) list"

datatype error =
    TypeError
  | ENOENT string
  | MalformedJson string

text \<open>
  A \<^verbatim>\<open>throw\<close> ends the evaluation: the steps of a function are chained with
  \<open>and_then\<close>, which stops at the first failure.
\<close>

definition and_then :: "error + 'a \<Rightarrow> ('a \<Rightarrow> error + 'b) \<Rightarrow> error + 'b" where
  "and_then r f = (case r of Inl e \<Rightarrow> Inl e | Inr v \<Rightarrow> f v)"

text \<open>\<^verbatim>\<open>!!v\<close>: the falsy values are undefined, null, false, 0 and the empty string.\<close>

fun truthy :: "jsval \<Rightarrow> bool" where
  "truthy JUndefined = False"
| "truthy JNull = False"
| "truthy (JBool b) = b"
| "truthy (JNum n) = (n \<noteq> 0)"
| "truthy (JStr s) = (s \<noteq> [])"
| "truthy (JArr xs) = True"
| "truthy (JObj kvs) = True"

text \<open>\<^verbatim>\<open>a || b\<close>\<close>

definition js_or :: "jsval \<Rightarrow> jsval \<Rightarrow> jsval" where
  "js_or a b = (if truthy a then a else b)"

text \<open>\<^verbatim>\<open>typeof v === 'string'\<close>\<close>

fun is_string :: "jsval \<Rightarrow> bool" where
  "is_string (JStr s) = True"
| "is_string v = False"

text \<open>Decimal rendering of an array index, as property names of arrays and strings.\<close>

definition digit_char :: "nat \<Rightarrow> char" where
  "digit_char d = ''0123456789'' ! d"

fun string_of_nat :: "nat \<Rightarrow> string" where
  "string_of_nat n =
     (if n < 10 then [digit_char n] else string_of_nat (n div 10) @ [digit_char (n mod 10)])"

declare string_of_nat.simps [simp del]

text \<open>
  A property name is an array index when it is the decimal rendering of a number below
  \<open>2^32 - 1\<close>: reading it as a number and rendering that number gives the name back.
\<close>

definition nat_of_digits :: "string \<Rightarrow> nat" where
  "nat_of_digits k = foldl (\<lambda>a c. 10 * a + (of_char c - 48)) 0 k"

definition array_index :: "string \<Rightarrow> nat option" where
  "array_index k =
     (let n = nat_of_digits k
      in if string_of_nat n = k \<and> n < 4294967295 then Some n else None)"

text \<open>
  \<^verbatim>\<open>Object.keys(v)\<close>: the own enumerable property names. It throws on undefined and
  null; a number or a boolean has none; an array and a string have their indices.
\<close>

fun Object_keys :: "jsval \<Rightarrow> error + string list" where
  "Object_keys JUndefined = Inl TypeError"
| "Object_keys JNull = Inl TypeError"
| "Object_keys (JBool b) = Inr []"
| "Object_keys (JNum n) = Inr []"
| "Object_keys (JStr s) = Inr (map string_of_nat [0..<length s])"
| "Object_keys (JArr xs) = Inr (map string_of_nat [0..<length xs])"
| "Object_keys (JObj kvs) = Inr (map fst kvs)"

text \<open>
  The own enumerable properties of a value with their values, as \<^verbatim>\<open>Object.assign\<close>
  copies them; undefined and null sources are skipped there.
\<close>

fun own_entries :: "jsval \<Rightarrow> (string \<times> jsval) list" where
  "own_entries (JObj kvs) = kvs"
| "own_entries (JArr xs) = zip (map string_of_nat [0..<length xs]) xs"
| "own_entries (JStr s) = zip (map string_of_nat [0..<length s]) (map (\<lambda>c. JStr [c]) s)"
| "own_entries v = []"

text \<open>
  \<^verbatim>\<open>v[k]\<close> and \<^verbatim>\<open>v.k\<close>: reading a property of undefined or null throws a TypeError, a
  missing property reads as undefined. The property names this code reads are own keys
  taken from \<^verbatim>\<open>Object.keys\<close> and the field names of configuration entries, none of
  which is inherited from a prototype.
\<close>

fun js_prop :: "jsval \<Rightarrow> string \<Rightarrow> error + jsval" where
  "js_prop JUndefined k = Inl TypeError"
| "js_prop JNull k = Inl TypeError"
| "js_prop (JBool b) k = Inr JUndefined"
| "js_prop (JNum n) k = Inr JUndefined"
| "js_prop (JStr s) k =
     (if k = ''length'' then Inr (JNum (int (length s)))
      else case map_of (own_entries (JStr s)) k of None \<Rightarrow> Inr JUndefined | Some v \<Rightarrow> Inr v)"
| "js_prop (JArr xs) k =
     (if k = ''length'' then Inr (JNum (int (length xs)))
      else case map_of (own_entries (JArr xs)) k of None \<Rightarrow> Inr JUndefined | Some v \<Rightarrow> Inr v)"
| "js_prop (JObj kvs) k =
     (case map_of kvs k of None \<Rightarrow> Inr JUndefined | Some v \<Rightarrow> Inr v)"

text \<open>
  \<^verbatim>\<open>o[k] = v\<close> on an object. An existing property keeps its place. A new property
  whose name is an array index goes among the array indices, in ascending order, before
  every other name; any other new property is added after all the others.
\<close>

fun js_replace :: "(string \<times> jsval) list \<Rightarrow> string \<Rightarrow> jsval \<Rightarrow> (string \<times> jsval) list" where
  "js_replace [] k v = []"
| "js_replace ((k', v') # kvs) k v =
     (if k' = k then (k, v) # kvs else (k', v') # js_replace kvs k v)"

fun js_insert_index ::
    "nat \<Rightarrow> string \<Rightarrow> jsval \<Rightarrow> (string \<times> jsval) list \<Rightarrow> (string \<times> jsval) list" where
  "js_insert_index n k v [] = [(k, v)]"
| "js_insert_index n k v ((k', v') # kvs) =
     (case array_index k' of
        Some n' \<Rightarrow> if n' < n then (k', v') # js_insert_index n k v kvs
                   else (k, v) # (k', v') # kvs
      | None \<Rightarrow> (k, v) # (k', v') # kvs)"

definition js_set :: "(string \<times> jsval) list \<Rightarrow> string \<Rightarrow> jsval \<Rightarrow> (string \<times> jsval) list" where
  "js_set kvs k v =
     (if k \<in> set (map fst kvs) then js_replace kvs k v
      else case array_index k of
             Some n \<Rightarrow> js_insert_index n k v kvs
           | None \<Rightarrow> kvs @ [(k, v)])"

text \<open>\<^verbatim>\<open>Object.assign({}, s1, ..., sn)\<close>, which is what \<^verbatim>\<open>R.merge\<close> and \<^verbatim>\<open>R.mergeAll\<close> call.\<close>

definition assign_into :: "(string \<times> jsval) list \<Rightarrow> jsval \<Rightarrow> (string \<times> jsval) list" where
  "assign_into target source = foldl (\<lambda>acc (k, v). js_set acc k v) target (own_entries source)"

definition R_mergeAll :: "jsval list \<Rightarrow> jsval" where
  "R_mergeAll sources = JObj (foldl assign_into [] sources)"

definition R_merge :: "jsval \<Rightarrow> jsval \<Rightarrow> jsval" where
  "R_merge l r = JObj (foldl assign_into [] [l, r])"

text \<open>
  \<^verbatim>\<open>R.equals(a, b)\<close> on JSON values: the same type, primitives by value, arrays element by
  element, objects with the same number of keys and, for every key of \<open>a\<close>, an own property
  of \<open>b\<close> with an equal value (the order of keys does not matter).
\<close>

fun R_equals :: "jsval \<Rightarrow> jsval \<Rightarrow> bool"
  and R_equals_list :: "jsval list \<Rightarrow> jsval list \<Rightarrow> bool"
  and R_equals_props :: "(string \<times> jsval) list \<Rightarrow> (string \<times> jsval) list \<Rightarrow> bool" where
  "R_equals (JArr xs) b = (case b of JArr ys \<Rightarrow> R_equals_list xs ys | _ \<Rightarrow> False)"
| "R_equals (JObj kvs) b =
     (case b of JObj kws \<Rightarrow> length kvs = length kws \<and> R_equals_props kvs kws | _ \<Rightarrow> False)"
| "R_equals JUndefined b = (b = JUndefined)"
| "R_equals JNull b = (b = JNull)"
| "R_equals (JBool x) b = (b = JBool x)"
| "R_equals (JNum n) b = (b = JNum n)"
| "R_equals (JStr s) b = (b = JStr s)"
| "R_equals_list [] ys = (ys = [])"
| "R_equals_list (x # xs) ys =
     (case ys of [] \<Rightarrow> False | y # ys' \<Rightarrow> R_equals x y \<and> R_equals_list xs ys')"
| "R_equals_props [] kws = True"
| "R_equals_props ((k, v) # kvs) kws =
     ((case map_of kws k of None \<Rightarrow> False | Some w \<Rightarrow> R_equals v w) \<and> R_equals_props kvs kws)"

text \<open>
  \<^verbatim>\<open>R.isEmpty(v)\<close>: \<open>v\<close> equals the empty value of its type, which exists for arrays,
  strings and objects only. \<^verbatim>\<open>RA.isNilOrEmpty(v)\<close> adds undefined and null.
\<close>

definition R_isEmpty :: "jsval \<Rightarrow> bool" where
  "R_isEmpty v = (v = JArr [] \<or> v = JStr [] \<or> v = JObj [])"

definition RA_isNilOrEmpty :: "jsval \<Rightarrow> bool" where
  "RA_isNilOrEmpty v = (v = JUndefined \<or> v = JNull \<or> R_isEmpty v)"


section \<open>What the module imports\<close>

text \<open>
  The constants of \<^verbatim>\<open>../../constants\<close> and \<^verbatim>\<open>path.join\<close> are not part of the file;
  every definition takes them as the parameter \<open>x\<close>, so that each result holds for whatever
  values they have.
\<close>

record externals =
  NO_PLUGIN_TYPE :: string
  COMPILER_ENV_TYPE :: string
  TESTER_ENV_TYPE :: string
  DEFAULT_LANGUAGE :: string
  DEFAULT_BINDINGS_PREFIX :: string
  DEFAULT_EXTENSIONS :: jsval
  BIT_JSON :: string
  PACKAGE_JSON :: string
  path_join :: "string \<Rightarrow> string \<Rightarrow> string"

section \<open>The class AbstractBitConfig\<close>

text \<open>
  The fields of an instance. A field that was never assigned reads as undefined. The
  source's field \<^verbatim>\<open>_compiler\<close> is \<open>priv_compiler\<close> here and \<^verbatim>\<open>_tester\<close> is
  \<open>priv_tester\<close>; \<open>compiler\<close> and \<open>tester\<close> below are the getters.
\<close>

record AbstractBitConfig =
  path :: jsval
  priv_compiler :: jsval
  priv_tester :: jsval
  dependencies :: jsval
  devDependencies :: jsval
  compilerDependencies :: jsval
  testerDependencies :: jsval
  lang :: jsval
  bindingPrefix :: jsval
  extensions :: jsval
  writeToPackageJson :: bool
  writeToBitJson :: bool

text \<open>\<^verbatim>\<open>transformEnvToObject(env)\<close>, lines 284-292.\<close>

definition transformEnvToObject :: "externals \<Rightarrow> jsval \<Rightarrow> jsval" where
  "transformEnvToObject x env =
     (case env of
        JStr s \<Rightarrow> if s = NO_PLUGIN_TYPE x then JObj [] else JObj [(s, JObj [])]
      | _ \<Rightarrow> env)"

text \<open>
  The constructor, lines 82-88, with the two class properties initialised to false. It reads
  five properties of \<open>props\<close>, which throws when \<open>props\<close> is undefined or null.
\<close>

definition constructor :: "externals \<Rightarrow> jsval \<Rightarrow> error + AbstractBitConfig" where
  "constructor x props =
     and_then (js_prop props ''compiler'') (\<lambda>c.
     and_then (js_prop props ''tester'') (\<lambda>t.
     and_then (js_prop props ''lang'') (\<lambda>l.
     and_then (js_prop props ''bindingPrefix'') (\<lambda>b.
     and_then (js_prop props ''extensions'') (\<lambda>ex.
      Inr \<lparr> path = JUndefined,
            priv_compiler = js_or c (JObj []),
            priv_tester = js_or t (JObj []),
            dependencies = JUndefined,
            devDependencies = JUndefined,
            compilerDependencies = JUndefined,
            testerDependencies = JUndefined,
            lang = js_or l (JStr (DEFAULT_LANGUAGE x)),
            bindingPrefix = js_or b (JStr (DEFAULT_BINDINGS_PREFIX x)),
            extensions = js_or ex (DEFAULT_EXTENSIONS x),
            writeToPackageJson = False,
            writeToBitJson = False \<rparr>)))))"

text \<open>The getters and setters of \<^verbatim>\<open>compiler\<close> and \<^verbatim>\<open>tester\<close>, lines 90-108.\<close>

definition compiler :: "externals \<Rightarrow> AbstractBitConfig \<Rightarrow> jsval" where
  "compiler x this =
     (let compilerObj = transformEnvToObject x (priv_compiler this)
      in if R_isEmpty compilerObj then JUndefined else compilerObj)"

definition set_compiler :: "externals \<Rightarrow> AbstractBitConfig \<Rightarrow> jsval \<Rightarrow> AbstractBitConfig" where
  "set_compiler x this c = this\<lparr>priv_compiler := transformEnvToObject x c\<rparr>"

definition tester :: "externals \<Rightarrow> AbstractBitConfig \<Rightarrow> jsval" where
  "tester x this =
     (let testerObj = transformEnvToObject x (priv_tester this)
      in if R_isEmpty testerObj then JUndefined else testerObj)"

definition set_tester :: "externals \<Rightarrow> AbstractBitConfig \<Rightarrow> jsval \<Rightarrow> AbstractBitConfig" where
  "set_tester x this t = this\<lparr>priv_tester := transformEnvToObject x t\<rparr>"

text \<open>
  \<^verbatim>\<open>addDependencies\<close> and \<^verbatim>\<open>addDependency\<close>, lines 110-119. The class BitId is not part
  of the file; \<open>toObject\<close> stands for its method of that name.
\<close>

definition addDependencies ::
    "('id \<Rightarrow> jsval) \<Rightarrow> AbstractBitConfig \<Rightarrow> 'id list \<Rightarrow> AbstractBitConfig" where
  "addDependencies toObject this bitIds =
     (let idObjects = R_mergeAll (map toObject bitIds)
      in this\<lparr>dependencies := R_merge (dependencies this) idObjects\<rparr>)"

definition addDependency ::
    "('id \<Rightarrow> jsval) \<Rightarrow> AbstractBitConfig \<Rightarrow> 'id \<Rightarrow> AbstractBitConfig" where
  "addDependency toObject this bitId =
     this\<lparr>dependencies := R_merge (dependencies this) (toObject bitId)\<rparr>"

text \<open>\<^verbatim>\<open>hasCompiler\<close> and \<^verbatim>\<open>hasTester\<close>, lines 121-127.\<close>

definition hasCompiler :: "externals \<Rightarrow> AbstractBitConfig \<Rightarrow> bool" where
  "hasCompiler x this =
     (truthy (compiler x this) \<and> priv_compiler this \<noteq> JStr (NO_PLUGIN_TYPE x)
      \<and> \<not> R_isEmpty (compiler x this))"

definition hasTester :: "externals \<Rightarrow> AbstractBitConfig \<Rightarrow> bool" where
  "hasTester x this =
     (truthy (tester x this) \<and> priv_tester this \<noteq> JStr (NO_PLUGIN_TYPE x)
      \<and> \<not> R_isEmpty (tester x this))"

text \<open>\<^verbatim>\<open>getEnvsByType(type)\<close>, lines 129-134.\<close>

definition getEnvsByType :: "externals \<Rightarrow> AbstractBitConfig \<Rightarrow> jsval \<Rightarrow> jsval" where
  "getEnvsByType x this type =
     (if type = JStr (COMPILER_ENV_TYPE x) then compiler x this else tester x this)"

text \<open>
  \<^verbatim>\<open>keys[0]\<close> of a list of property names, with the property name that value denotes when
  it is used as an index: an empty list gives undefined, which indexes the property called
  "undefined".
\<close>

definition first_key :: "string list \<Rightarrow> jsval \<times> string" where
  "first_key ks = (case ks of [] \<Rightarrow> (JUndefined, ''undefined'') | k # _ \<Rightarrow> (JStr k, k))"

text \<open>\<^verbatim>\<open>getEnvsProps\<close>, lines 294-315; reading a field of an undefined or null entry throws.\<close>

definition getEnvsProps ::
    "jsval \<Rightarrow> jsval \<Rightarrow> jsval \<Rightarrow> jsval \<Rightarrow> jsval \<Rightarrow> jsval \<Rightarrow> jsval \<Rightarrow> error + jsval" where
  "getEnvsProps consumerPath scopePath envName envObject bitJsonPath envType context =
     and_then (js_prop envObject ''rawConfig'') (\<lambda>rawConfig.
     and_then (js_prop envObject ''files'') (\<lambda>files.
     and_then (js_prop envObject ''options'') (\<lambda>options.
      Inr (JObj [(''name'', envName),
                 (''consumerPath'', consumerPath),
                 (''scopePath'', scopePath),
                 (''rawConfig'', rawConfig),
                 (''files'', files),
                 (''bitJsonPath'', bitJsonPath),
                 (''options'', options),
                 (''envType'', envType),
                 (''context'', context)]))))"

text \<open>
  \<^verbatim>\<open>loadEnv\<close>, lines 156-171. The plugin factory \<open>loadFunc\<close> is an effectful collaborator:
  it takes the property bag and the state \<open>w\<close> of whatever it acts on, and gives its outcome
  (a failure, or the environment handle, opaque to this code) with the new state.
\<close>

definition loadEnv ::
    "externals \<Rightarrow> AbstractBitConfig \<Rightarrow> jsval \<Rightarrow> jsval \<Rightarrow> jsval
      \<Rightarrow> (jsval \<Rightarrow> 'w \<Rightarrow> (error + jsval) \<times> 'w) \<Rightarrow> jsval \<Rightarrow> 'w \<Rightarrow> (error + jsval) \<times> 'w" where
  "loadEnv x this envType consumerPath scopePath loadFunc context w =
     (let envs = getEnvsByType x this envType in
      if \<not> truthy envs then (Inr JUndefined, w)
      else
        (case and_then (Object_keys envs) (\<lambda>ks.
                let (envName, key) = first_key ks in
                and_then (js_prop envs key) (\<lambda>envObject.
                getEnvsProps consumerPath scopePath envName envObject (path this) envType context))
         of Inl e \<Rightarrow> (Inl e, w)
          | Inr envProps \<Rightarrow> loadFunc envProps w))"

text \<open>
  \<^verbatim>\<open>loadCompiler\<close> and \<^verbatim>\<open>loadTester\<close>, lines 136-154. \<open>load\<close> stands for the imported
  \<^verbatim>\<open>CompilerExtension.load\<close> and \<^verbatim>\<open>TesterExtension.load\<close>.
\<close>

definition loadCompiler ::
    "externals \<Rightarrow> (jsval \<Rightarrow> 'w \<Rightarrow> (error + jsval) \<times> 'w) \<Rightarrow> AbstractBitConfig
      \<Rightarrow> jsval \<Rightarrow> jsval \<Rightarrow> jsval \<Rightarrow> 'w \<Rightarrow> (error + jsval) \<times> 'w" where
  "loadCompiler x load this consumerPath scopePath context w =
     (if \<not> hasCompiler x this then (Inr JNull, w)
      else loadEnv x this (JStr (COMPILER_ENV_TYPE x)) consumerPath scopePath load context w)"

definition loadTester ::
    "externals \<Rightarrow> (jsval \<Rightarrow> 'w \<Rightarrow> (error + jsval) \<times> 'w) \<Rightarrow> AbstractBitConfig
      \<Rightarrow> jsval \<Rightarrow> jsval \<Rightarrow> jsval \<Rightarrow> 'w \<Rightarrow> (error + jsval) \<times> 'w" where
  "loadTester x load this consumerPath scopePath context w =
     (if \<not> hasTester x this then (Inr JNull, w)
      else loadEnv x this (JStr (TESTER_ENV_TYPE x)) consumerPath scopePath load context w)"

text \<open>
  \<^verbatim>\<open>getBackwardCompatibleEnv(type)\<close>, lines 177-190. The three emptiness tests are joined
  by \<^verbatim>\<open>&&\<close>, so a later one is evaluated only when the earlier ones hold.
\<close>

definition getBackwardCompatibleEnv ::
    "externals \<Rightarrow> AbstractBitConfig \<Rightarrow> jsval \<Rightarrow> error + jsval" where
  "getBackwardCompatibleEnv x this type =
     (let envObj = getEnvsByType x this type in
      if \<not> truthy envObj then Inr JUndefined
      else and_then (Object_keys envObj) (\<lambda>ks.
        if length ks \<noteq> 1 then Inr envObj
        else
          (let (envId, key) = first_key ks in
           and_then (js_prop envObj key) (\<lambda>entry.
           and_then (js_prop entry ''rawConfig'') (\<lambda>rawConfig.
           if \<not> RA_isNilOrEmpty rawConfig then Inr envObj
           else and_then (js_prop entry ''options'') (\<lambda>options.
           if \<not> RA_isNilOrEmpty options then Inr envObj
           else and_then (js_prop entry ''files'') (\<lambda>files.
           if \<not> RA_isNilOrEmpty files then Inr envObj
           else Inr envId)))))))"

text \<open>
  Modelled from the spec: the helper \<^verbatim>\<open>filterObject\<close> of \<^verbatim>\<open>../../utils\<close> is not among
  the sources. The spec's canonicalizer "filters out any top-level key" that the predicate
  rejects and keeps the others, so the helper keeps, in order, the properties whose value
  and key satisfy the predicate.
\<close>

definition filterObject :: "(string \<times> jsval) list \<Rightarrow> (jsval \<Rightarrow> string \<Rightarrow> bool) \<Rightarrow> jsval" where
  "filterObject obj fn = JObj (filter (\<lambda>(key, val). fn val key) obj)"

text \<open>
  \<^verbatim>\<open>toPlainObject\<close>, lines 196-218, with its local predicate. \<^verbatim>\<open>val !== c\<close> against a
  string constant holds unless \<open>val\<close> is that very string.
\<close>

definition isPropDefaultOrNull :: "externals \<Rightarrow> jsval \<Rightarrow> string \<Rightarrow> bool" where
  "isPropDefaultOrNull x val key =
     (if \<not> truthy val then False
      else if key = ''lang'' then val \<noteq> JStr (DEFAULT_LANGUAGE x)
      else if key = ''bindingPrefix'' then val \<noteq> JStr (DEFAULT_BINDINGS_PREFIX x)
      else if key = ''extensions'' then \<not> R_equals val (DEFAULT_EXTENSIONS x)
      else True)"

definition toPlainObject :: "externals \<Rightarrow> AbstractBitConfig \<Rightarrow> error + jsval" where
  "toPlainObject x this =
     and_then (getBackwardCompatibleEnv x this (JStr (COMPILER_ENV_TYPE x))) (\<lambda>c.
     and_then (getBackwardCompatibleEnv x this (JStr (TESTER_ENV_TYPE x))) (\<lambda>t.
      Inr (filterObject
             [(''lang'', lang this),
              (''bindingPrefix'', bindingPrefix this),
              (''env'', JObj [(''compiler'', c), (''tester'', t)]),
              (''dependencies'', dependencies this),
              (''extensions'', extensions this)]
             (isPropDefaultOrNull x))))"


section \<open>Files, promises and the static helpers\<close>

text \<open>
  The file system as \<^verbatim>\<open>fs-extra\<close> shows it to this code: a path holds nothing, a file
  that parses as JSON, or a file that does not. \<^verbatim>\<open>fs.readJson\<close> fails with ENOENT on a
  missing file and with a parse failure on a file that is not JSON.
\<close>

datatype fcontent = JsonFile jsval | OtherFile

type_synonym filesystem = "string \<rightharpoonup> fcontent"

definition fs_readJson :: "filesystem \<Rightarrow> string \<Rightarrow> error + jsval" where
  "fs_readJson fs p =
     (case fs p of
        None \<Rightarrow> Inl (ENOENT p)
      | Some OtherFile \<Rightarrow> Inl (MalformedJson p)
      | Some (JsonFile v) \<Rightarrow> Inr v)"

text \<open>
  An asynchronous call returns a promise: an object, hence truthy in a condition whatever it
  resolves to; \<^verbatim>\<open>await\<close>, and the return of an \<^verbatim>\<open>async\<close> function, give the value it
  resolves to.
\<close>

datatype 'a promise = Promise 'a

fun truthy_promise :: "'a promise \<Rightarrow> bool" where
  "truthy_promise (Promise v) = True"

fun await :: "'a promise \<Rightarrow> 'a" where
  "await (Promise v) = v"

text \<open>
  \<^verbatim>\<open>fs.exists(p)\<close> without a callback returns a promise of a boolean, which is how
  \<^verbatim>\<open>pathHasBitJson\<close> uses it. \<^verbatim>\<open>fs.remove(p)\<close> deletes what is at the path, succeeds
  also when nothing is there, and resolves to no value.
\<close>

definition fs_exists :: "filesystem \<Rightarrow> string \<Rightarrow> bool promise" where
  "fs_exists fs p = Promise (fs p \<noteq> None)"

definition fs_remove :: "filesystem \<Rightarrow> string \<Rightarrow> (jsval \<times> filesystem) promise" where
  "fs_remove fs p = Promise (JUndefined, fs(p := None))"

text \<open>The static path helpers, lines 250-262.\<close>

definition composeBitJsonPath :: "externals \<Rightarrow> string \<Rightarrow> string" where
  "composeBitJsonPath x bitPath = path_join x bitPath (BIT_JSON x)"

definition composePackageJsonPath :: "externals \<Rightarrow> string \<Rightarrow> string" where
  "composePackageJsonPath x bitPath = path_join x bitPath (PACKAGE_JSON x)"

definition pathHasBitJson :: "externals \<Rightarrow> filesystem \<Rightarrow> string \<Rightarrow> bool" where
  "pathHasBitJson x fs bitPath = await (fs_exists fs (composeBitJsonPath x bitPath))"

definition pathHasPackageJson :: "externals \<Rightarrow> filesystem \<Rightarrow> string \<Rightarrow> bool" where
  "pathHasPackageJson x fs bitPath = await (fs_exists fs (composePackageJsonPath x bitPath))"

text \<open>
  \<^verbatim>\<open>removeIfExist\<close>, lines 274-281. The state is the file system and the lines sent to
  \<^verbatim>\<open>logger.info\<close>. The condition of the \<^verbatim>\<open>if\<close> is the promise that \<^verbatim>\<open>fs.exists\<close>
  returns, not the boolean it resolves to: the source does not await it.
\<close>

definition removeIfExist ::
    "externals \<Rightarrow> string \<Rightarrow> filesystem \<times> string list \<Rightarrow> jsval \<times> filesystem \<times> string list" where
  "removeIfExist x bitPath st =
     (let (fs, logged) = st;
          dirToRemove = composeBitJsonPath x bitPath in
      if truthy_promise (fs_exists fs dirToRemove)
      then (let logged' = logged @ [''abstract-bit-config, deleting '' @ dirToRemove];
                (result, fs') = await (fs_remove fs dirToRemove)
            in (result, fs', logged'))
      else (JBool False, fs, logged))"

section \<open>Writing the configuration\<close>

text \<open>
  Modelled from the spec: the class \<^verbatim>\<open>JSONFile\<close> of \<^verbatim>\<open>../component/sources/json-file\<close>
  is not among the sources. By the spec's writer, \<^verbatim>\<open>JSONFile.load\<close> stages a content for
  a path "with override semantics (create-or-replace)", and executing the staged writes
  returns "the list of paths actually written, in the order staged". A staged file is the
  parameter object of \<^verbatim>\<open>load\<close>; its \<^verbatim>\<open>write\<close> puts the content at the path and gives
  the path.
\<close>

record JSONFile =
  base :: string
  override :: bool
  file_path :: string
  content :: jsval

definition JSONFile_load :: "string \<Rightarrow> bool \<Rightarrow> string \<Rightarrow> jsval \<Rightarrow> JSONFile" where
  "JSONFile_load b ov p c = \<lparr> base = b, override = ov, file_path = p, content = c \<rparr>"

definition JSONFile_write :: "JSONFile \<Rightarrow> filesystem \<Rightarrow> string \<times> filesystem" where
  "JSONFile_write f fs = (file_path f, fs(file_path f \<mapsto> JsonFile (content f)))"

text \<open>
  \<^verbatim>\<open>packageJsonFile.bit = plainObject\<close> in strict mode: on an object it sets the property,
  on null and on a primitive it throws; on an array it adds a named property, which is not
  part of the array's JSON form.
\<close>

fun set_bit :: "jsval \<Rightarrow> jsval \<Rightarrow> error + jsval" where
  "set_bit (JObj kvs) v = Inr (JObj (js_set kvs ''bit'' v))"
| "set_bit (JArr xs) v = Inr (JArr xs)"
| "set_bit other v = Inl TypeError"

text \<open>\<^verbatim>\<open>prepareToWrite\<close>, lines 225-243: it reads the file system and stages the files.\<close>

definition prepareToWrite ::
    "externals \<Rightarrow> AbstractBitConfig \<Rightarrow> string \<Rightarrow> filesystem \<Rightarrow> error + JSONFile list" where
  "prepareToWrite x this bitDir fs =
     and_then (toPlainObject x this) (\<lambda>plainObject.
     and_then
       (if writeToPackageJson this
        then (let packageJsonPath = composePackageJsonPath x bitDir in
              and_then (fs_readJson fs packageJsonPath) (\<lambda>packageJsonFile.
              and_then (set_bit packageJsonFile plainObject) (\<lambda>packageJsonFile'.
              Inr [JSONFile_load bitDir True packageJsonPath packageJsonFile'])))
        else Inr [])
       (\<lambda>JsonFiles.
          if writeToBitJson this
          then (let bitJsonPath = composeBitJsonPath x bitDir in
                Inr (JsonFiles @ [JSONFile_load bitDir True bitJsonPath plainObject]))
          else Inr JsonFiles))"

text \<open>
  \<^verbatim>\<open>write\<close>, lines 220-223, here \<open>write_config\<close>: when the preparation fails nothing is written; otherwise every
  staged file is written and the paths are returned in the order staged.
\<close>

fun write_all :: "JSONFile list \<Rightarrow> filesystem \<Rightarrow> string list \<times> filesystem" where
  "write_all [] fs = ([], fs)"
| "write_all (f # fs_rest) fs =
     (let (p, fs') = JSONFile_write f fs;
          (ps, fs'') = write_all fs_rest fs'
      in (p # ps, fs''))"

definition write_config ::
    "externals \<Rightarrow> AbstractBitConfig \<Rightarrow> string \<Rightarrow> filesystem \<Rightarrow> (error + string list) \<times> filesystem" where
  "write_config x this bitDir fs =
     (case prepareToWrite x this bitDir fs of
        Inl e \<Rightarrow> (Inl e, fs)
      | Inr jsonFiles \<Rightarrow> (let (ps, fs') = write_all jsonFiles fs in (Inr ps, fs')))"


section \<open>Auxiliary notions for the properties\<close>

text \<open>
  An entry of an environment set that carries nothing: each of its three fields can be read
  and is undefined, null or empty.
\<close>

definition is_bare_entry :: "jsval \<Rightarrow> bool" where
  "is_bare_entry entry =
     (case (js_prop entry ''rawConfig'', js_prop entry ''options'', js_prop entry ''files'') of
        (Inr rawConfig, Inr options, Inr files) \<Rightarrow>
          RA_isNilOrEmpty rawConfig \<and> RA_isNilOrEmpty options \<and> RA_isNilOrEmpty files
      | _ \<Rightarrow> False)"

text \<open>
  A plugin factory that records every property bag it is called with and resolves to
  absent: its state is the list of the calls made so far.
\<close>

definition spy_factory :: "jsval \<Rightarrow> jsval list \<Rightarrow> (error + jsval) \<times> jsval list" where
  "spy_factory bag calls = (Inr JNull, calls @ [bag])"

text \<open>
  Sample values of the imported constants, with the default language and binding prefix
  that the specification names, and a sample of \<^verbatim>\<open>path.join\<close>.
\<close>

definition sample_externals :: externals where
  "sample_externals =
     \<lparr> NO_PLUGIN_TYPE = ''none'',
       COMPILER_ENV_TYPE = ''compiler'',
       TESTER_ENV_TYPE = ''tester'',
       DEFAULT_LANGUAGE = ''javascript'',
       DEFAULT_BINDINGS_PREFIX = ''@bit'',
       DEFAULT_EXTENSIONS = JObj [],
       BIT_JSON = ''bit.json'',
       PACKAGE_JSON = ''package.json'',
       path_join = (\<lambda>a b. a @ ''/'' @ b) \<rparr>"

text \<open>A model as the constructor leaves it when \<open>props\<close> is the empty object.\<close>

definition fresh_config :: AbstractBitConfig where
  "fresh_config =
     \<lparr> path = JUndefined,
       priv_compiler = JObj [],
       priv_tester = JObj [],
       dependencies = JUndefined,
       devDependencies = JUndefined,
       compilerDependencies = JUndefined,
       testerDependencies = JUndefined,
       lang = JStr ''javascript'',
       bindingPrefix = JStr ''@bit'',
       extensions = JObj [],
       writeToPackageJson = False,
       writeToBitJson = False \<rparr>"


text \<open>
  A model with a structured compiler declaration, stored at \<^verbatim>\<open>/ws/bit.json\<close>.
\<close>

definition babel_entry :: jsval where
  "babel_entry =
     JObj [(''rawConfig'', JObj [(''debug'', JBool True)]),
           (''options'', JObj [(''pass'', JBool True)]),
           (''files'', JArr [JStr ''.babelrc''])]"

definition babel_config :: AbstractBitConfig where
  "babel_config =
     fresh_config\<lparr> path := JStr ''/ws/bit.json'',
                    priv_compiler := JObj [(''babel'', babel_entry)] \<rparr>"

text \<open>
  A model with the default language, binding prefix and extensions, no environment, and a
  dependencies mapping, as a subclass sets it from a configuration file.
\<close>

definition deps_config :: AbstractBitConfig where
  "deps_config = fresh_config\<lparr> dependencies := JObj [(''foo@1.0.0'', JStr ''1.0.0'')] \<rparr>"

text \<open>
  An environment set whose entries can be read: undefined (no environment), or an object
  none of whose entries is undefined or null.
\<close>

fun readable_env_set :: "jsval \<Rightarrow> bool" where
  "readable_env_set JUndefined = True"
| "readable_env_set (JObj kvs) = list_all (\<lambda>(k, e). e \<noteq> JUndefined \<and> e \<noteq> JNull) kvs"
| "readable_env_set v = False"

text \<open>
  The order in which \<^verbatim>\<open>Object.keys\<close> reports two property names, and the lists of
  properties that are in that order with no name twice: what a JavaScript object is.
\<close>

definition key_before :: "string \<Rightarrow> string \<Rightarrow> bool" where
  "key_before k k' =
     (case array_index k of
        Some n \<Rightarrow> (case array_index k' of Some n' \<Rightarrow> n < n' | None \<Rightarrow> True)
      | None \<Rightarrow> array_index k' = None)"

definition enumeration_order :: "(string \<times> jsval) list \<Rightarrow> bool" where
  "enumeration_order kvs = (distinct (map fst kvs) \<and> sorted_wrt key_before (map fst kvs))"

text \<open>\<^verbatim>\<open>props.k\<close> for a props object given by its properties.\<close>

definition props_field :: "(string \<times> jsval) list \<Rightarrow> string \<Rightarrow> jsval" where
  "props_field props k = (case map_of props k of None \<Rightarrow> JUndefined | Some v \<Rightarrow> v)"

text \<open>The dependency fields that \<^verbatim>\<open>AbstractBitConfigProps\<close> declares.\<close>

definition dependency_props :: "string set" where
  "dependency_props =
     {''dependencies'', ''devDependencies'', ''compilerDependencies'', ''testerDependencies''}"

section \<open>Normalisation and the getters\<close>

lemma and_then_Inl [simp]: "and_then (Inl e) f = Inl e"
  by (simp add: and_then_def)

lemma and_then_Inr [simp]: "and_then (Inr v) f = f v"
  by (simp add: and_then_def)

lemma transform_sentinel: "transformEnvToObject x (JStr (NO_PLUGIN_TYPE x)) = JObj []"
  by (simp add: transformEnvToObject_def)

lemma transform_bare_name:
  "s \<noteq> NO_PLUGIN_TYPE x \<Longrightarrow> transformEnvToObject x (JStr s) = JObj [(s, JObj [])]"
  by (simp add: transformEnvToObject_def)

lemma transform_shape:
  "is_string v \<or> (\<exists>kvs. v = JObj kvs) \<Longrightarrow> \<exists>kvs. transformEnvToObject x v = JObj kvs"
  by (cases v) (auto simp: transformEnvToObject_def)

lemma getter_shape:
  "(let obj = transformEnvToObject x v in if R_isEmpty obj then JUndefined else obj) \<noteq> JObj []"
  by (simp add: Let_def R_isEmpty_def)

text \<open>
  C6. Normalising the no-plugin sentinel gives the empty environment set, and a model whose
  stored compiler (tester) is the sentinel answers false to \<open>hasCompiler\<close> (\<open>hasTester\<close>).
  Both queries are total: none of their steps can throw.
\<close>

theorem sentinel_law:
  "transformEnvToObject x (JStr (NO_PLUGIN_TYPE x)) = JObj []
   \<and> (priv_compiler m = JStr (NO_PLUGIN_TYPE x) \<longrightarrow> \<not> hasCompiler x m)
   \<and> (priv_tester m = JStr (NO_PLUGIN_TYPE x) \<longrightarrow> \<not> hasTester x m)"
  by (simp add: transform_sentinel hasCompiler_def hasTester_def)

theorem sentinel_law_witness:
  "priv_compiler (fresh_config\<lparr>priv_compiler := JStr ''none'', priv_tester := JStr ''none''\<rparr>)
     = JStr (NO_PLUGIN_TYPE sample_externals)
   \<and> priv_tester (fresh_config\<lparr>priv_compiler := JStr ''none'', priv_tester := JStr ''none''\<rparr>)
     = JStr (NO_PLUGIN_TYPE sample_externals)
   \<and> \<not> hasCompiler sample_externals
         (fresh_config\<lparr>priv_compiler := JStr ''none'', priv_tester := JStr ''none''\<rparr>)
   \<and> \<not> hasTester sample_externals
         (fresh_config\<lparr>priv_compiler := JStr ''none'', priv_tester := JStr ''none''\<rparr>)"
  using sentinel_law [of sample_externals
      "fresh_config\<lparr>priv_compiler := JStr ''none'', priv_tester := JStr ''none''\<rparr>"]
  by (simp add: sample_externals_def)

text \<open>
  C8. The getters never return the empty object: a stored value that normalises to the
  empty set reads as undefined, and when the stored value has its declared type (a string
  or an environment set) every result other than undefined is a set with a first entry.
\<close>

theorem getters_never_empty:
  "compiler x m \<noteq> JObj [] \<and> tester x m \<noteq> JObj []
   \<and> (transformEnvToObject x (priv_compiler m) = JObj [] \<longrightarrow> compiler x m = JUndefined)
   \<and> (transformEnvToObject x (priv_tester m) = JObj [] \<longrightarrow> tester x m = JUndefined)
   \<and> ((is_string (priv_compiler m) \<or> (\<exists>kvs. priv_compiler m = JObj kvs))
        \<and> compiler x m \<noteq> JUndefined
        \<longrightarrow> (\<exists>k e rest. compiler x m = JObj ((k, e) # rest)))
   \<and> ((is_string (priv_tester m) \<or> (\<exists>kvs. priv_tester m = JObj kvs))
        \<and> tester x m \<noteq> JUndefined
        \<longrightarrow> (\<exists>k e rest. tester x m = JObj ((k, e) # rest)))"
proof -
  have c1: "compiler x m \<noteq> JObj []"
    unfolding compiler_def by (rule getter_shape)
  have t1: "tester x m \<noteq> JObj []"
    unfolding tester_def by (rule getter_shape)
  have c2: "transformEnvToObject x (priv_compiler m) = JObj [] \<longrightarrow> compiler x m = JUndefined"
    by (simp add: compiler_def R_isEmpty_def)
  have t2: "transformEnvToObject x (priv_tester m) = JObj [] \<longrightarrow> tester x m = JUndefined"
    by (simp add: tester_def R_isEmpty_def)
  have c3: "\<exists>k e rest. compiler x m = JObj ((k, e) # rest)"
    if typed: "is_string (priv_compiler m) \<or> (\<exists>kvs. priv_compiler m = JObj kvs)"
      and present: "compiler x m \<noteq> JUndefined"
  proof -
    from transform_shape [OF typed]
    obtain kvs where "transformEnvToObject x (priv_compiler m) = JObj kvs"
      by blast
    with present have "kvs \<noteq> []" and "compiler x m = JObj kvs"
      by (auto simp: compiler_def R_isEmpty_def split: if_splits)
    then show ?thesis by (cases kvs) auto
  qed
  have t3: "\<exists>k e rest. tester x m = JObj ((k, e) # rest)"
    if typed: "is_string (priv_tester m) \<or> (\<exists>kvs. priv_tester m = JObj kvs)"
      and present: "tester x m \<noteq> JUndefined"
  proof -
    from transform_shape [OF typed]
    obtain kvs where "transformEnvToObject x (priv_tester m) = JObj kvs"
      by blast
    with present have "kvs \<noteq> []" and "tester x m = JObj kvs"
      by (auto simp: tester_def R_isEmpty_def split: if_splits)
    then show ?thesis by (cases kvs) auto
  qed
  from c1 t1 c2 t2 c3 t3 show ?thesis by blast
qed

theorem getters_never_empty_witness:
  "is_string (priv_compiler (fresh_config\<lparr>priv_compiler := JStr ''babel'', priv_tester := JStr ''none''\<rparr>))
   \<and> compiler sample_externals
        (fresh_config\<lparr>priv_compiler := JStr ''babel'', priv_tester := JStr ''none''\<rparr>) \<noteq> JUndefined
   \<and> (\<exists>k e rest. compiler sample_externals
        (fresh_config\<lparr>priv_compiler := JStr ''babel'', priv_tester := JStr ''none''\<rparr>)
          = JObj ((k, e) # rest))
   \<and> transformEnvToObject sample_externals
        (priv_tester (fresh_config\<lparr>priv_compiler := JStr ''babel'', priv_tester := JStr ''none''\<rparr>))
          = JObj []
   \<and> tester sample_externals
        (fresh_config\<lparr>priv_compiler := JStr ''babel'', priv_tester := JStr ''none''\<rparr>) = JUndefined"
  using getters_never_empty [of sample_externals
      "fresh_config\<lparr>priv_compiler := JStr ''babel'', priv_tester := JStr ''none''\<rparr>"]
  by (simp add: sample_externals_def compiler_def transformEnvToObject_def R_isEmpty_def)


section \<open>The backward-compatible form\<close>

lemma bare_empty_entry: "is_bare_entry (JObj [])"
  by (simp add: is_bare_entry_def RA_isNilOrEmpty_def)

lemma single_bare_entry:
  assumes envs: "getEnvsByType x m ty = JObj [(k, e)]" and bare: "is_bare_entry e"
  shows "getBackwardCompatibleEnv x m ty = Inr (JStr k)"
proof -
  from bare obtain rc op fl where
    rc: "js_prop e ''rawConfig'' = Inr rc" "RA_isNilOrEmpty rc" and
    op: "js_prop e ''options'' = Inr op" "RA_isNilOrEmpty op" and
    fl: "js_prop e ''files'' = Inr fl" "RA_isNilOrEmpty fl"
    by (auto simp: is_bare_entry_def split: sum.splits)
  show ?thesis
    by (simp add: getBackwardCompatibleEnv_def envs first_key_def rc op fl)
qed

lemma compiler_of_name:
  "s \<noteq> NO_PLUGIN_TYPE x
   \<Longrightarrow> priv_compiler m = JStr s \<or> priv_compiler m = transformEnvToObject x (JStr s)
   \<Longrightarrow> compiler x m = JObj [(s, JObj [])]"
  by (auto simp: compiler_def transformEnvToObject_def R_isEmpty_def)

lemma tester_of_name:
  "s \<noteq> NO_PLUGIN_TYPE x
   \<Longrightarrow> priv_tester m = JStr s \<or> priv_tester m = transformEnvToObject x (JStr s)
   \<Longrightarrow> tester x m = JObj [(s, JObj [])]"
  by (auto simp: tester_def transformEnvToObject_def R_isEmpty_def)

text \<open>
  C2. For a bare name \<open>s\<close> other than the sentinel, normalisation gives the one-entry set
  with an empty entry, and a model that stores \<open>s\<close> (as given, or normalised by the setter)
  serialises its compiler, and its tester, back to the string \<open>s\<close>. More generally every
  one-entry set whose entry carries nothing serialises to its key.
\<close>

theorem backward_compatibility_law:
  "s \<noteq> NO_PLUGIN_TYPE x \<Longrightarrow>
     transformEnvToObject x (JStr s) = JObj [(s, JObj [])]
     \<and> getBackwardCompatibleEnv x (set_compiler x m (JStr s)) (JStr (COMPILER_ENV_TYPE x))
         = Inr (JStr s)
     \<and> (priv_compiler m = JStr s
          \<longrightarrow> getBackwardCompatibleEnv x m (JStr (COMPILER_ENV_TYPE x)) = Inr (JStr s))
     \<and> (COMPILER_ENV_TYPE x \<noteq> TESTER_ENV_TYPE x
          \<longrightarrow> getBackwardCompatibleEnv x (set_tester x m (JStr s)) (JStr (TESTER_ENV_TYPE x))
               = Inr (JStr s))
     \<and> (COMPILER_ENV_TYPE x \<noteq> TESTER_ENV_TYPE x \<and> priv_tester m = JStr s
          \<longrightarrow> getBackwardCompatibleEnv x m (JStr (TESTER_ENV_TYPE x)) = Inr (JStr s))
     \<and> (\<forall>k e. getEnvsByType x m ty = JObj [(k, e)] \<and> is_bare_entry e
          \<longrightarrow> getBackwardCompatibleEnv x m ty = Inr (JStr k))"
proof -
  assume s: "s \<noteq> NO_PLUGIN_TYPE x"
  have a: "transformEnvToObject x (JStr s) = JObj [(s, JObj [])]"
    using s by (rule transform_bare_name)
  have b: "getBackwardCompatibleEnv x m' (JStr (COMPILER_ENV_TYPE x)) = Inr (JStr s)"
    if "priv_compiler m' = JStr s \<or> priv_compiler m' = transformEnvToObject x (JStr s)" for m'
  proof (rule single_bare_entry)
    show "getEnvsByType x m' (JStr (COMPILER_ENV_TYPE x)) = JObj [(s, JObj [])]"
      using compiler_of_name [OF s that] by (simp add: getEnvsByType_def)
    show "is_bare_entry (JObj [])" by (rule bare_empty_entry)
  qed
  have c: "getBackwardCompatibleEnv x m' (JStr (TESTER_ENV_TYPE x)) = Inr (JStr s)"
    if d: "COMPILER_ENV_TYPE x \<noteq> TESTER_ENV_TYPE x"
      and t: "priv_tester m' = JStr s \<or> priv_tester m' = transformEnvToObject x (JStr s)" for m'
  proof (rule single_bare_entry)
    show "getEnvsByType x m' (JStr (TESTER_ENV_TYPE x)) = JObj [(s, JObj [])]"
      using tester_of_name [OF s t] d by (simp add: getEnvsByType_def)
    show "is_bare_entry (JObj [])" by (rule bare_empty_entry)
  qed
  have sc: "priv_compiler (set_compiler x m (JStr s)) = transformEnvToObject x (JStr s)"
    by (simp add: set_compiler_def)
  have st: "priv_tester (set_tester x m (JStr s)) = transformEnvToObject x (JStr s)"
    by (simp add: set_tester_def)
  have d: "\<forall>k e. getEnvsByType x m ty = JObj [(k, e)] \<and> is_bare_entry e
          \<longrightarrow> getBackwardCompatibleEnv x m ty = Inr (JStr k)"
    by (blast intro: single_bare_entry)
  from a b [of "set_compiler x m (JStr s)"] b [of m] c [of "set_tester x m (JStr s)"] c [of m]
    sc st d
  show ?thesis by blast
qed

theorem backward_compatibility_law_witness:
  "''babel'' \<noteq> NO_PLUGIN_TYPE sample_externals
   \<and> COMPILER_ENV_TYPE sample_externals \<noteq> TESTER_ENV_TYPE sample_externals
   \<and> priv_tester (fresh_config\<lparr>priv_tester := JStr ''babel''\<rparr>) = JStr ''babel''
   \<and> transformEnvToObject sample_externals (JStr ''babel'') = JObj [(''babel'', JObj [])]
   \<and> getBackwardCompatibleEnv sample_externals
       (set_compiler sample_externals (fresh_config\<lparr>priv_tester := JStr ''babel''\<rparr>) (JStr ''babel''))
       (JStr (COMPILER_ENV_TYPE sample_externals)) = Inr (JStr ''babel'')
   \<and> getBackwardCompatibleEnv sample_externals (fresh_config\<lparr>priv_tester := JStr ''babel''\<rparr>)
       (JStr (TESTER_ENV_TYPE sample_externals)) = Inr (JStr ''babel'')"
proof -
  let ?m = "fresh_config\<lparr>priv_tester := JStr ''babel''\<rparr>"
  have s: "''babel'' \<noteq> NO_PLUGIN_TYPE sample_externals"
    by (simp add: sample_externals_def)
  have d: "COMPILER_ENV_TYPE sample_externals \<noteq> TESTER_ENV_TYPE sample_externals"
    by (simp add: sample_externals_def)
  have t: "priv_tester ?m = JStr ''babel''"
    by simp
  from backward_compatibility_law [OF s, of ?m] s d t show ?thesis
    by blast
qed

section \<open>Selecting and loading an environment\<close>

text \<open>
  C3, as the code has it. \<open>getEnvsByType\<close> has no failure: it returns the compiler set for
  the compiler type and the tester set for every other value of \<open>type\<close>, so a value that
  is neither of the two kinds is answered like the tester type.
\<close>

theorem getEnvsByType_dispatch:
  "getEnvsByType x m (JStr (COMPILER_ENV_TYPE x)) = compiler x m
   \<and> (ty \<noteq> JStr (COMPILER_ENV_TYPE x) \<longrightarrow> getEnvsByType x m ty = tester x m)
   \<and> (ty \<noteq> JStr (COMPILER_ENV_TYPE x) \<and> COMPILER_ENV_TYPE x \<noteq> TESTER_ENV_TYPE x
        \<longrightarrow> getEnvsByType x m ty = getEnvsByType x m (JStr (TESTER_ENV_TYPE x)))"
  by (simp add: getEnvsByType_def)

theorem getEnvsByType_dispatch_witness:
  "JNum 7 \<noteq> JStr (COMPILER_ENV_TYPE sample_externals)
   \<and> COMPILER_ENV_TYPE sample_externals \<noteq> TESTER_ENV_TYPE sample_externals
   \<and> getEnvsByType sample_externals (fresh_config\<lparr>priv_tester := JStr ''mocha''\<rparr>) (JNum 7)
       = tester sample_externals (fresh_config\<lparr>priv_tester := JStr ''mocha''\<rparr>)
   \<and> getEnvsByType sample_externals (fresh_config\<lparr>priv_tester := JStr ''mocha''\<rparr>) (JNum 7)
       = getEnvsByType sample_externals (fresh_config\<lparr>priv_tester := JStr ''mocha''\<rparr>)
           (JStr (TESTER_ENV_TYPE sample_externals))"
proof -
  have a: "JNum 7 \<noteq> JStr (COMPILER_ENV_TYPE sample_externals)"
    by simp
  have d: "COMPILER_ENV_TYPE sample_externals \<noteq> TESTER_ENV_TYPE sample_externals"
    by (simp add: sample_externals_def)
  from getEnvsByType_dispatch [of sample_externals
      "fresh_config\<lparr>priv_tester := JStr ''mocha''\<rparr>" "JNum 7"] a d
  show ?thesis by blast
qed

text \<open>
  C3 as stated fails: called with the type "linter", which is neither kind, the function
  returns the tester set of the model.
\<close>

theorem getEnvsByType_counterexample:
  "getEnvsByType sample_externals (fresh_config\<lparr>priv_tester := JStr ''mocha''\<rparr>) (JStr ''linter'')
     = JObj [(''mocha'', JObj [])]"
  by (simp add: getEnvsByType_def tester_def transformEnvToObject_def R_isEmpty_def
      sample_externals_def)

text \<open>
  C7. When \<open>hasCompiler\<close> is false, \<open>loadCompiler\<close> resolves to null and leaves the state of
  the factory as it was, whatever the factory is; with the recording factory no call is
  recorded. The same holds of \<open>loadTester\<close> when \<open>hasTester\<close> is false.
\<close>

theorem loader_shortcut:
  "(\<not> hasCompiler x m \<longrightarrow>
      loadCompiler x load m consumerPath scopePath context w = (Inr JNull, w)
      \<and> snd (loadCompiler x spy_factory m consumerPath scopePath context []) = [])
   \<and> (\<not> hasTester x m \<longrightarrow>
      loadTester x load m consumerPath scopePath context w = (Inr JNull, w)
      \<and> snd (loadTester x spy_factory m consumerPath scopePath context []) = [])"
  by (simp add: loadCompiler_def loadTester_def)

lemma fresh_config_no_envs:
  "\<not> hasCompiler sample_externals fresh_config" "\<not> hasTester sample_externals fresh_config"
  by (simp_all add: hasCompiler_def hasTester_def compiler_def tester_def transformEnvToObject_def
      R_isEmpty_def fresh_config_def)

theorem loader_shortcut_witness:
  "\<not> hasCompiler sample_externals fresh_config \<and> \<not> hasTester sample_externals fresh_config
   \<and> loadCompiler sample_externals spy_factory fresh_config (JStr ''/ws'') (JStr ''/scope'') JUndefined
        [] = (Inr JNull, [])
   \<and> loadTester sample_externals spy_factory fresh_config (JStr ''/ws'') (JStr ''/scope'') JUndefined
        [] = (Inr JNull, [])"
  using loader_shortcut [of sample_externals fresh_config spy_factory "JStr ''/ws''" "JStr ''/scope''"
      JUndefined "[]"] fresh_config_no_envs
  by blast

lemma babel_config_compiler:
  "getEnvsByType sample_externals babel_config (JStr ''compiler'') = JObj [(''babel'', babel_entry)]"
  by (simp add: getEnvsByType_def compiler_def transformEnvToObject_def R_isEmpty_def
      babel_config_def sample_externals_def)

lemma babel_entry_fields:
  "js_prop babel_entry ''rawConfig'' = Inr (JObj [(''debug'', JBool True)])"
  "js_prop babel_entry ''files'' = Inr (JArr [JStr ''.babelrc''])"
  "js_prop babel_entry ''options'' = Inr (JObj [(''pass'', JBool True)])"
  by (simp_all add: babel_entry_def)

text \<open>With a compiler declared the recording factory is called.\<close>

lemma loadCompiler_calls_factory:
  "snd (loadCompiler sample_externals spy_factory babel_config (JStr ''/ws'') (JStr ''/scope'')
          JUndefined []) \<noteq> []"
proof -
  have "hasCompiler sample_externals babel_config"
    using babel_config_compiler
    by (simp add: hasCompiler_def getEnvsByType_def sample_externals_def R_isEmpty_def
        babel_config_def)
  then show ?thesis
    using babel_config_compiler
    by (simp add: loadCompiler_def loadEnv_def first_key_def getEnvsProps_def babel_entry_fields
        spy_factory_def sample_externals_def)
qed

text \<open>
  C4, as the code has it. When the environment set of the type is an object with a first
  entry whose fields can be read, the factory is called exactly once, with the bag of nine
  properties name, consumerPath, scopePath, rawConfig, files, bitJsonPath (the model's
  path), options, envType and context; name and the entry fields come from the first key.
\<close>

theorem loadEnv_property_bag:
  assumes "getEnvsByType x m ty = JObj ((k, e) # rest)"
    and "js_prop e ''rawConfig'' = Inr rawConfig"
    and "js_prop e ''files'' = Inr files"
    and "js_prop e ''options'' = Inr options"
  shows "loadEnv x m ty consumerPath scopePath loadFunc context w =
           loadFunc (JObj [(''name'', JStr k),
                           (''consumerPath'', consumerPath),
                           (''scopePath'', scopePath),
                           (''rawConfig'', rawConfig),
                           (''files'', files),
                           (''bitJsonPath'', path m),
                           (''options'', options),
                           (''envType'', ty),
                           (''context'', context)]) w"
  using assms by (simp add: loadEnv_def first_key_def getEnvsProps_def)

theorem loadEnv_property_bag_witness:
  "getEnvsByType sample_externals babel_config (JStr ''compiler'') = JObj [(''babel'', babel_entry)]
   \<and> js_prop babel_entry ''rawConfig'' = Inr (JObj [(''debug'', JBool True)])
   \<and> js_prop babel_entry ''files'' = Inr (JArr [JStr ''.babelrc''])
   \<and> js_prop babel_entry ''options'' = Inr (JObj [(''pass'', JBool True)])
   \<and> loadEnv sample_externals babel_config (JStr ''compiler'') (JStr ''/ws'') (JStr ''/scope'')
        spy_factory JUndefined []
      = spy_factory
          (JObj [(''name'', JStr ''babel''),
                 (''consumerPath'', JStr ''/ws''),
                 (''scopePath'', JStr ''/scope''),
                 (''rawConfig'', JObj [(''debug'', JBool True)]),
                 (''files'', JArr [JStr ''.babelrc'']),
                 (''bitJsonPath'', path babel_config),
                 (''options'', JObj [(''pass'', JBool True)]),
                 (''envType'', JStr ''compiler''),
                 (''context'', JUndefined)]) []"
  using loadEnv_property_bag [OF babel_config_compiler babel_entry_fields,
      of "JStr ''/ws''" "JStr ''/scope''" spy_factory JUndefined "[]"]
    babel_config_compiler babel_entry_fields
  by blast

text \<open>
  C4 as stated fails: for the sample model the bag that reaches the factory has the
  property options and holds the path under bitJsonPath, so it is not the bag of eight
  properties with configPath, in whatever order its keys are compared.
\<close>

theorem loadEnv_property_bag_counterexample:
  "snd (loadEnv sample_externals babel_config (JStr ''compiler'') (JStr ''/ws'') (JStr ''/scope'')
          spy_factory JUndefined [])
     = [JObj [(''name'', JStr ''babel''),
              (''consumerPath'', JStr ''/ws''),
              (''scopePath'', JStr ''/scope''),
              (''rawConfig'', JObj [(''debug'', JBool True)]),
              (''files'', JArr [JStr ''.babelrc'']),
              (''bitJsonPath'', JStr ''/ws/bit.json''),
              (''options'', JObj [(''pass'', JBool True)]),
              (''envType'', JStr ''compiler''),
              (''context'', JUndefined)]]
   \<and> \<not> R_equals
         (JObj [(''name'', JStr ''babel''),
                (''consumerPath'', JStr ''/ws''),
                (''scopePath'', JStr ''/scope''),
                (''rawConfig'', JObj [(''debug'', JBool True)]),
                (''files'', JArr [JStr ''.babelrc'']),
                (''bitJsonPath'', JStr ''/ws/bit.json''),
                (''options'', JObj [(''pass'', JBool True)]),
                (''envType'', JStr ''compiler''),
                (''context'', JUndefined)])
         (JObj [(''name'', JStr ''babel''),
                (''consumerPath'', JStr ''/ws''),
                (''scopePath'', JStr ''/scope''),
                (''rawConfig'', JObj [(''debug'', JBool True)]),
                (''files'', JArr [JStr ''.babelrc'']),
                (''configPath'', JStr ''/ws/bit.json''),
                (''envType'', JStr ''compiler''),
                (''context'', JUndefined)])"
proof -
  have "path babel_config = JStr ''/ws/bit.json''"
    by (simp add: babel_config_def)
  then show ?thesis
    using babel_config_compiler
    by (simp add: loadEnv_def first_key_def getEnvsProps_def babel_entry_fields spy_factory_def)
qed


section \<open>Writing to the two destinations\<close>

lemma prepare_missing_package:
  assumes flag: "writeToPackageJson m" and missing: "fs (composePackageJsonPath x bitDir) = None"
  shows "prepareToWrite x m bitDir fs =
           (case toPlainObject x m of Inl e \<Rightarrow> Inl e
            | Inr po \<Rightarrow> Inl (ENOENT (composePackageJsonPath x bitDir)))"
  by (cases "toPlainObject x m") (simp_all add: prepareToWrite_def flag fs_readJson_def missing)

text \<open>
  C5. When \<open>writeToPackageJson\<close> is set and no file is at the package descriptor's path,
  \<open>write\<close> fails and the file system is as before, whatever \<open>writeToBitJson\<close> is: in
  particular nothing appears at the workspace descriptor's path. The failure is ENOENT for
  the package descriptor unless computing the plain object already failed.
\<close>

theorem missing_package_descriptor_is_fatal:
  assumes flag: "writeToPackageJson m" and missing: "fs (composePackageJsonPath x bitDir) = None"
  shows "(\<exists>e. write_config x m bitDir fs = (Inl e, fs))
         \<and> (\<forall>po. toPlainObject x m = Inr po \<longrightarrow>
               write_config x m bitDir fs = (Inl (ENOENT (composePackageJsonPath x bitDir)), fs))
         \<and> snd (write_config x m bitDir fs) (composeBitJsonPath x bitDir)
             = fs (composeBitJsonPath x bitDir)"
proof -
  have prep: "prepareToWrite x m bitDir fs =
           (case toPlainObject x m of Inl e \<Rightarrow> Inl e
            | Inr po \<Rightarrow> Inl (ENOENT (composePackageJsonPath x bitDir)))"
    using flag missing by (rule prepare_missing_package)
  show ?thesis
    by (cases "toPlainObject x m") (simp_all add: write_config_def prep)
qed

lemma fresh_plain_object:
  "toPlainObject sample_externals (fresh_config\<lparr>writeToPackageJson := a, writeToBitJson := b\<rparr>)
     = Inr (JObj [(''env'', JObj [(''compiler'', JUndefined), (''tester'', JUndefined)])])"
  by (simp add: toPlainObject_def getBackwardCompatibleEnv_def getEnvsByType_def compiler_def
      tester_def transformEnvToObject_def R_isEmpty_def fresh_config_def filterObject_def
      isPropDefaultOrNull_def sample_externals_def)

theorem missing_package_descriptor_is_fatal_witness:
  "writeToPackageJson (fresh_config\<lparr>writeToPackageJson := True, writeToBitJson := True\<rparr>)
   \<and> (Map.empty :: filesystem) (composePackageJsonPath sample_externals ''/ws'') = None
   \<and> write_config sample_externals
        (fresh_config\<lparr>writeToPackageJson := True, writeToBitJson := True\<rparr>) ''/ws'' Map.empty
      = (Inl (ENOENT ''/ws/package.json''), Map.empty)
   \<and> snd (write_config sample_externals
        (fresh_config\<lparr>writeToPackageJson := True, writeToBitJson := True\<rparr>) ''/ws'' Map.empty)
        (composeBitJsonPath sample_externals ''/ws'') = None"
proof -
  let ?m = "fresh_config\<lparr>writeToPackageJson := True, writeToBitJson := True\<rparr>"
  have p: "composePackageJsonPath sample_externals ''/ws'' = ''/ws/package.json''"
    by (simp add: composePackageJsonPath_def sample_externals_def)
  from missing_package_descriptor_is_fatal
         [where m = ?m and fs = Map.empty and x = sample_externals and bitDir = "''/ws''"]
       fresh_plain_object [of True True] p
  show ?thesis by simp
qed

lemma array_index_bit: "array_index ''bit'' = None"
  by (simp add: array_index_def nat_of_digits_def Let_def string_of_nat.simps digit_char_def)

text \<open>With the package descriptor present, both files are written.\<close>

lemma write_creates_both:
  "write_config sample_externals
     (fresh_config\<lparr>writeToPackageJson := True, writeToBitJson := True\<rparr>) ''/ws''
     [''/ws/package.json'' \<mapsto> JsonFile (JObj [(''name'', JStr ''pkg'')])]
   = (Inr [''/ws/package.json'', ''/ws/bit.json''],
      [''/ws/package.json'' \<mapsto> JsonFile (JObj [(''name'', JStr ''pkg''),
          (''bit'', JObj [(''env'', JObj [(''compiler'', JUndefined), (''tester'', JUndefined)])])]),
       ''/ws/bit.json'' \<mapsto> JsonFile (JObj [(''env'', JObj [(''compiler'', JUndefined), (''tester'', JUndefined)])])])"
proof -
  have p: "composePackageJsonPath sample_externals ''/ws'' = ''/ws/package.json''"
    by (simp add: composePackageJsonPath_def sample_externals_def)
  have b: "composeBitJsonPath sample_externals ''/ws'' = ''/ws/bit.json''"
    by (simp add: composeBitJsonPath_def sample_externals_def)
  show ?thesis
    unfolding write_config_def prepareToWrite_def fresh_plain_object p b
    by (simp add: fs_readJson_def JSONFile_load_def JSONFile_write_def js_set_def
        array_index_bit)
qed

section \<open>Removing the workspace descriptor\<close>

text \<open>
  C9. On a directory without a workspace descriptor the awaited probe \<open>pathHasBitJson\<close>
  answers false, yet \<open>removeIfExist\<close> logs a deletion and resolves to undefined rather
  than false: its condition is the promise itself, which is truthy.
\<close>

theorem removeIfExist_missing_file:
  "removeIfExist sample_externals ''/ws'' (Map.empty, [])
     = (JUndefined, Map.empty, [''abstract-bit-config, deleting /ws/bit.json''])
   \<and> \<not> pathHasBitJson sample_externals Map.empty ''/ws''"
  by (simp add: removeIfExist_def composeBitJsonPath_def sample_externals_def fs_exists_def
      fs_remove_def pathHasBitJson_def)

text \<open>On every input the function logs, removes and resolves to what the removal gives.\<close>

lemma removeIfExist_always_logs:
  "removeIfExist x bitPath (fs, logged)
     = (JUndefined, fs(composeBitJsonPath x bitPath := None),
        logged @ [''abstract-bit-config, deleting '' @ composeBitJsonPath x bitPath])"
  by (simp add: removeIfExist_def fs_exists_def fs_remove_def Let_def)


section \<open>Construction and dependencies\<close>

lemma map_of_filter_keys:
  "P k \<Longrightarrow> map_of (filter (\<lambda>(k', v). P k') kvs) k = map_of kvs k"
  by (induction kvs) auto

text \<open>Array indices are canonical: no leading zero, no sign, below \<open>2^32 - 1\<close>.\<close>

lemma array_index_examples:
  "array_index ''12'' = Some 12"
  "array_index ''0'' = Some 0"
  "array_index ''012'' = None"
  "array_index [] = None"
  "array_index ''foo@1.0.0'' = None"
  "array_index ''4294967294'' = Some 4294967294"
  "array_index ''4294967295'' = None"
  by (simp_all add: array_index_def nat_of_digits_def Let_def string_of_nat.simps digit_char_def)

lemma array_index_inj: "array_index k = Some n \<Longrightarrow> array_index k' = Some n \<Longrightarrow> k = k'"
  by (auto simp: array_index_def Let_def split: if_splits)

lemma keys_js_replace [simp]: "map fst (js_replace kvs k v) = map fst kvs"
  by (induction kvs) auto

lemma keys_js_insert:
  "set (map fst (js_insert_index n k v kvs)) = insert k (set (map fst kvs))"
proof (induction kvs)
  case Nil
  then show ?case by simp
next
  case (Cons kv kvs)
  obtain k' v' where kv: "kv = (k', v')" by (cases kv)
  show ?case
  proof (cases "array_index k'")
    case None
    then show ?thesis by (simp add: kv insert_commute)
  next
    case (Some n')
    then show ?thesis using Cons.IH by (cases "n' < n") (simp_all add: kv insert_commute)
  qed
qed

lemma distinct_insert:
  "k \<notin> set (map fst kvs) \<Longrightarrow> distinct (map fst kvs) \<Longrightarrow> distinct (map fst (js_insert_index n k v kvs))"
proof (induction kvs)
  case Nil
  then show ?case by simp
next
  case (Cons kv kvs)
  obtain k' v' where kv: "kv = (k', v')" by (cases kv)
  from Cons have ih: "distinct (map fst (js_insert_index n k v kvs))"
    and fresh: "k' \<notin> set (map fst (js_insert_index n k v kvs))"
    by (auto simp: kv keys_js_insert simp del: set_map)
  show ?case
  proof (cases "array_index k'")
    case None
    then show ?thesis using Cons.prems by (simp add: kv)
  next
    case (Some n')
    then show ?thesis using Cons.prems ih fresh by (cases "n' < n") (simp_all add: kv)
  qed
qed

lemma key_before_trans_index:
  "array_index k = Some n \<Longrightarrow> array_index k' = Some n' \<Longrightarrow> n < n' \<Longrightarrow> key_before k' a \<Longrightarrow> key_before k a"
  by (auto simp: key_before_def split: option.splits)

lemma key_before_nonindex:
  "array_index k = Some n \<Longrightarrow> array_index k' = None \<Longrightarrow> key_before k' a \<Longrightarrow> key_before k a"
  by (auto simp: key_before_def split: option.splits)

lemma sorted_insert:
  assumes "array_index k = Some n" "k \<notin> set (map fst kvs)" "sorted_wrt key_before (map fst kvs)"
  shows "sorted_wrt key_before (map fst (js_insert_index n k v kvs))"
  using assms(2,3)
proof (induction kvs)
  case Nil
  then show ?case by simp
next
  case (Cons kv kvs)
  obtain k' v' where kv: "kv = (k', v')" by (cases kv)
  show ?case
  proof (cases "array_index k'")
    case None
    then have "key_before k k'" using assms(1) by (simp add: key_before_def)
    moreover have "key_before k a" if "a \<in> set (map fst kvs)" for a
      using Cons.prems(2) that key_before_nonindex [OF assms(1) None] by (auto simp: kv)
    ultimately show ?thesis using Cons.prems None by (auto simp: kv)
  next
    case (Some n')
    show ?thesis
    proof (cases "n' < n")
      case True
      then have "key_before k' k" using Some assms(1) by (simp add: key_before_def)
      moreover have "key_before k' a" if "a \<in> set (map fst kvs)" for a
        using Cons.prems(2) that by (auto simp: kv)
      ultimately have "\<forall>a \<in> set (map fst (js_insert_index n k v kvs)). key_before k' a"
        unfolding keys_js_insert by blast
      moreover have "sorted_wrt key_before (map fst (js_insert_index n k v kvs))"
        using Cons by (simp add: kv)
      ultimately show ?thesis using True Some by (simp add: kv del: set_map)
    next
      case False
      have "k \<noteq> k'" using Cons.prems by (auto simp: kv)
      with array_index_inj [OF assms(1), of k'] Some False have lt: "n < n'"
        by (cases "n = n'") auto
      then have "key_before k k'" using Some assms(1) by (simp add: key_before_def)
      moreover have "key_before k a" if "a \<in> set (map fst kvs)" for a
        using Cons.prems(2) that key_before_trans_index [OF assms(1) Some lt] by (auto simp: kv)
      ultimately show ?thesis using Cons.prems False Some by (auto simp: kv)
    qed
  qed
qed

lemma js_set_enumeration_order:
  assumes "enumeration_order kvs"
  shows "enumeration_order (js_set kvs k v)"
proof (cases "k \<in> set (map fst kvs)")
  case True
  then show ?thesis using assms by (simp add: js_set_def enumeration_order_def)
next
  case False
  show ?thesis
  proof (cases "array_index k")
    case None
    have "key_before a k" for a
      using None by (simp add: key_before_def split: option.splits)
    then show ?thesis
      using assms False None by (auto simp: js_set_def enumeration_order_def sorted_wrt_append)
  next
    case (Some n)
    then show ?thesis
      using assms False sorted_insert [OF Some False] distinct_insert [OF False]
      by (simp add: js_set_def enumeration_order_def)
  qed
qed

lemma js_insert_at_end:
  "\<forall>a \<in> set (map fst acc). \<exists>n'. array_index a = Some n' \<and> n' < n
   \<Longrightarrow> js_insert_index n k v acc = acc @ [(k, v)]"
  by (induction acc) auto

lemma js_set_at_end:
  assumes "k \<notin> set (map fst acc)" "\<forall>a \<in> set (map fst acc). key_before a k"
  shows "js_set acc k v = acc @ [(k, v)]"
proof (cases "array_index k")
  case None
  then show ?thesis using assms(1) by (simp add: js_set_def)
next
  case (Some n)
  have "\<forall>a \<in> set (map fst acc). \<exists>n'. array_index a = Some n' \<and> n' < n"
    using assms(2) Some by (auto simp: key_before_def split: option.splits)
  from js_insert_at_end [OF this] show ?thesis
    using assms(1) Some by (simp add: js_set_def)
qed

lemma assign_in_order:
  "enumeration_order (acc @ kvs)
   \<Longrightarrow> foldl (\<lambda>acc (k, v). js_set acc k v) acc kvs = acc @ kvs"
proof (induction kvs arbitrary: acc)
  case Nil
  then show ?case by simp
next
  case (Cons kv kvs)
  obtain k v where kv: "kv = (k, v)" by (cases kv)
  from Cons.prems have "k \<notin> set (map fst acc)" "\<forall>a \<in> set (map fst acc). key_before a k"
    by (auto simp: kv enumeration_order_def sorted_wrt_append)
  then have step: "js_set acc k v = acc @ [(k, v)]" by (rule js_set_at_end)
  have "foldl (\<lambda>acc (k, v). js_set acc k v) (acc @ [(k, v)]) kvs = (acc @ [(k, v)]) @ kvs"
    by (rule Cons.IH) (use Cons.prems in \<open>simp add: kv\<close>)
  then show ?case by (simp add: kv step)
qed

lemma assign_into_object: "enumeration_order kvs \<Longrightarrow> assign_into [] (JObj kvs) = kvs"
  using assign_in_order [of "[]" kvs] by (simp add: assign_into_def)

lemma R_merge_undefined:
  "enumeration_order kvs \<Longrightarrow> R_merge JUndefined (JObj kvs) = JObj kvs"
proof -
  assume "enumeration_order kvs"
  then have "assign_into [] (JObj kvs) = kvs" by (rule assign_into_object)
  moreover have "assign_into [] JUndefined = []" by (simp add: assign_into_def)
  ultimately show ?thesis by (simp add: R_merge_def)
qed

lemma assign_into_order: "enumeration_order acc \<Longrightarrow> enumeration_order (assign_into acc s)"
proof -
  have "enumeration_order acc \<Longrightarrow> enumeration_order (foldl (\<lambda>acc (k, v). js_set acc k v) acc es)" for es
    by (induction es arbitrary: acc) (auto simp: js_set_enumeration_order)
  then show "enumeration_order acc \<Longrightarrow> enumeration_order (assign_into acc s)"
    by (simp add: assign_into_def)
qed

lemma mergeAll_order: "\<exists>kvs. R_mergeAll sources = JObj kvs \<and> enumeration_order kvs"
proof -
  have "enumeration_order acc \<Longrightarrow> enumeration_order (foldl assign_into acc ss)" for acc ss
    by (induction ss arbitrary: acc) (auto simp: assign_into_order)
  from this [of "[]" sources] show ?thesis
    by (simp add: R_mergeAll_def enumeration_order_def)
qed

lemma R_merge_undefined_mergeAll: "R_merge JUndefined (R_mergeAll sources) = R_mergeAll sources"
  using mergeAll_order [of sources] by (auto simp: R_merge_undefined)

lemma map_of_js_replace:
  "k \<in> set (map fst kvs) \<Longrightarrow> map_of (js_replace kvs k v) = (map_of kvs)(k \<mapsto> v)"
proof (induction kvs)
  case Nil
  then show ?case by simp
next
  case (Cons kv kvs)
  obtain k' v' where kv: "kv = (k', v')" by (cases kv)
  show ?case
  proof (cases "k' = k")
    case True
    then show ?thesis by (auto simp: kv fun_eq_iff)
  next
    case False
    with Cons.prems have "k \<in> set (map fst kvs)" by (simp add: kv)
    from Cons.IH [OF this] False show ?thesis by (auto simp: kv fun_eq_iff)
  qed
qed

lemma map_of_js_insert:
  "k \<notin> set (map fst kvs) \<Longrightarrow> map_of (js_insert_index n k v kvs) = (map_of kvs)(k \<mapsto> v)"
proof (induction kvs)
  case Nil
  then show ?case by simp
next
  case (Cons kv kvs)
  obtain k' v' where kv: "kv = (k', v')" by (cases kv)
  from Cons.prems have ne: "k' \<noteq> k" and fresh: "k \<notin> set (map fst kvs)"
    by (auto simp: kv)
  show ?case
  proof (cases "array_index k'")
    case None
    then show ?thesis using ne by (auto simp: kv fun_eq_iff)
  next
    case (Some n')
    then show ?thesis
      using ne Cons.IH [OF fresh] by (cases "n' < n") (auto simp: kv fun_eq_iff)
  qed
qed

lemma map_of_js_set: "map_of (js_set kvs k v) = (map_of kvs)(k \<mapsto> v)"
proof (cases "k \<in> set (map fst kvs)")
  case True
  then show ?thesis by (simp add: js_set_def map_of_js_replace)
next
  case False
  then have none: "map_of kvs k = None"
    by (simp add: map_of_eq_None_iff)
  show ?thesis
  proof (cases "array_index k")
    case None
    then show ?thesis
      using False none by (auto simp: js_set_def fun_eq_iff map_add_def split: option.splits)
  next
    case (Some n)
    then show ?thesis using False by (simp add: js_set_def map_of_js_insert)
  qed
qed

lemma map_of_assign_into:
  "distinct (map fst (own_entries s)) \<Longrightarrow> map_of (assign_into acc s) = map_of acc ++ map_of (own_entries s)"
proof -
  have "distinct (map fst es) \<Longrightarrow>
        map_of (foldl (\<lambda>acc (k, v). js_set acc k v) acc es) = map_of acc ++ map_of es" for es
  proof (induction es arbitrary: acc)
    case Nil
    then show ?case by simp
  next
    case (Cons kv es)
    obtain k v where kv: "kv = (k, v)" by (cases kv)
    from Cons.prems have fresh: "map_of es k = None"
      by (auto simp: kv map_of_eq_None_iff)
    have "map_of (foldl (\<lambda>acc (k, v). js_set acc k v) (js_set acc k v) es)
            = map_of (js_set acc k v) ++ map_of es"
      by (rule Cons.IH) (use Cons.prems in simp)
    also have "\<dots> = map_of acc ++ map_of ((k, v) # es)"
      using fresh by (auto simp: map_of_js_set fun_eq_iff map_add_def split: option.splits)
    finally show ?case by (simp only: kv foldl_Cons prod.case)
  qed
  then show "distinct (map fst (own_entries s)) \<Longrightarrow> ?thesis"
    by (simp add: assign_into_def)
qed


lemma map_of_mergeAll:
  assumes "\<forall>s \<in> set ss. distinct (map fst (own_entries s))"
  shows "map_of (foldl assign_into acc ss)
           = foldl (\<lambda>a s. a ++ map_of (own_entries s)) (map_of acc) ss"
  using assms
proof (induction ss arbitrary: acc)
  case Nil
  then show ?case by simp
next
  case (Cons s ss)
  have "map_of (foldl assign_into (assign_into acc s) ss)
          = foldl (\<lambda>a s. a ++ map_of (own_entries s)) (map_of (assign_into acc s)) ss"
    by (rule Cons.IH) (use Cons.prems in simp)
  also have "map_of (assign_into acc s) = map_of acc ++ map_of (own_entries s)"
    by (rule map_of_assign_into) (use Cons.prems in simp)
  finally show ?case by simp
qed

text \<open>
  An example of the order of keys: merging into an object with the keys b and 7 an
  object with the keys 10, 2, b and a gives the keys 2, 7, 10, b, a.
\<close>

lemma merge_orders_array_indices:
  "R_merge (JObj [(''7'', JNum 2), (''b'', JNum 1)])
           (JObj [(''2'', JNum 4), (''10'', JNum 3), (''b'', JNum 5), (''a'', JNum 6)])
   = JObj [(''2'', JNum 4), (''7'', JNum 2), (''10'', JNum 3), (''b'', JNum 5), (''a'', JNum 6)]"
  by (simp add: R_merge_def assign_into_def js_set_def array_index_def nat_of_digits_def Let_def
      string_of_nat.simps digit_char_def)

lemma constructor_object:
  "constructor x (JObj props) =
     Inr \<lparr> path = JUndefined,
           priv_compiler = js_or (props_field props ''compiler'') (JObj []),
           priv_tester = js_or (props_field props ''tester'') (JObj []),
           dependencies = JUndefined,
           devDependencies = JUndefined,
           compilerDependencies = JUndefined,
           testerDependencies = JUndefined,
           lang = js_or (props_field props ''lang'') (JStr (DEFAULT_LANGUAGE x)),
           bindingPrefix =
             js_or (props_field props ''bindingPrefix'') (JStr (DEFAULT_BINDINGS_PREFIX x)),
           extensions = js_or (props_field props ''extensions'') (DEFAULT_EXTENSIONS x),
           writeToPackageJson = False,
           writeToBitJson = False \<rparr>"
  by (simp add: constructor_def props_field_def split: option.split)

lemma constructor_filter:
  "constructor x (JObj (filter (\<lambda>(k, v). k \<notin> dependency_props) props)) = constructor x (JObj props)"
proof -
  have "props_field (filter (\<lambda>(k, v). k \<notin> dependency_props) props) k = props_field props k"
    if "k \<notin> dependency_props" for k
    using map_of_filter_keys [of "\<lambda>k. k \<notin> dependency_props" k props] that
    by (simp add: props_field_def)
  then show ?thesis
    by (simp add: constructor_object dependency_props_def)
qed

lemma fresh_addDependencies:
  assumes "dependencies m = JUndefined"
  shows "dependencies (addDependencies toObject m bitIds) = R_mergeAll (map toObject bitIds)"
  using assms by (simp add: addDependencies_def R_merge_undefined_mergeAll)

lemma mergeAll_single:
  "enumeration_order kvs \<Longrightarrow> R_mergeAll [JObj kvs] = JObj kvs"
  by (simp add: R_mergeAll_def assign_into_object)

lemma mergeAll_lookup:
  assumes "\<forall>b \<in> set bitIds. distinct (map fst (own_entries (toObject b)))"
  shows "\<exists>res. R_mergeAll (map toObject bitIds) = JObj res \<and> enumeration_order res
           \<and> map_of res = foldl (\<lambda>a b. a ++ map_of (own_entries (toObject b))) Map.empty bitIds"
proof -
  from mergeAll_order [of "map toObject bitIds"]
  obtain res where res: "R_mergeAll (map toObject bitIds) = JObj res" "enumeration_order res"
    by blast
  then have "res = foldl assign_into [] (map toObject bitIds)"
    by (simp add: R_mergeAll_def)
  moreover have "map_of (foldl assign_into [] (map toObject bitIds))
      = foldl (\<lambda>a s. a ++ map_of (own_entries s)) (map_of []) (map toObject bitIds)"
    by (rule map_of_mergeAll) (use assms in simp)
  ultimately have "map_of res
      = foldl (\<lambda>a b. a ++ map_of (own_entries (toObject b))) Map.empty bitIds"
    by (simp add: foldl_map)
  with res show ?thesis by blast
qed

text \<open>
  C10. On every props object the constructor succeeds. It takes compiler, tester, lang,
  bindingPrefix and extensions from props, each replaced by its default when falsy; it
  leaves the path and the four dependency fields unset and both write flags false. The
  model is the one built from props without the four dependency properties, so they are
  ignored. On such a model \<open>addDependency\<close> stores the merge of nothing with the id's flat
  object, which is that object itself, and \<open>addDependencies\<close> stores the merge of all the
  flat objects: for one id that object, in general an object where a later id overrides an
  earlier one on a shared key.
\<close>

theorem constructor_leaves_dependencies_unset:
  "\<exists>m. constructor x (JObj props) = Inr m
       \<and> priv_compiler m = js_or (props_field props ''compiler'') (JObj [])
       \<and> priv_tester m = js_or (props_field props ''tester'') (JObj [])
       \<and> lang m = js_or (props_field props ''lang'') (JStr (DEFAULT_LANGUAGE x))
       \<and> bindingPrefix m
           = js_or (props_field props ''bindingPrefix'') (JStr (DEFAULT_BINDINGS_PREFIX x))
       \<and> extensions m = js_or (props_field props ''extensions'') (DEFAULT_EXTENSIONS x)
       \<and> path m = JUndefined \<and> \<not> writeToPackageJson m \<and> \<not> writeToBitJson m
       \<and> dependencies m = JUndefined \<and> devDependencies m = JUndefined
       \<and> compilerDependencies m = JUndefined \<and> testerDependencies m = JUndefined
       \<and> constructor x (JObj (filter (\<lambda>(k, v). k \<notin> dependency_props) props)) = Inr m
       \<and> (\<forall>bitId. dependencies (addDependency toObject m bitId) = R_merge JUndefined (toObject bitId))
       \<and> (\<forall>bitId kvs. toObject bitId = JObj kvs \<and> enumeration_order kvs
             \<longrightarrow> dependencies (addDependency toObject m bitId) = JObj kvs)
       \<and> (\<forall>bitIds. dependencies (addDependencies toObject m bitIds)
             = R_mergeAll (map toObject bitIds))
       \<and> (\<forall>bitId kvs. toObject bitId = JObj kvs \<and> enumeration_order kvs
             \<longrightarrow> dependencies (addDependencies toObject m [bitId]) = JObj kvs)
       \<and> (\<forall>bitIds. (\<forall>b \<in> set bitIds. distinct (map fst (own_entries (toObject b))))
             \<longrightarrow> (\<exists>res. dependencies (addDependencies toObject m bitIds) = JObj res
                    \<and> enumeration_order res
                    \<and> map_of res
                        = foldl (\<lambda>a b. a ++ map_of (own_entries (toObject b))) Map.empty bitIds))"
proof -
  obtain m where m: "constructor x (JObj props) = Inr m"
    by (simp add: constructor_object)
  then have taken: "priv_compiler m = js_or (props_field props ''compiler'') (JObj [])"
      "priv_tester m = js_or (props_field props ''tester'') (JObj [])"
      "lang m = js_or (props_field props ''lang'') (JStr (DEFAULT_LANGUAGE x))"
      "bindingPrefix m
           = js_or (props_field props ''bindingPrefix'') (JStr (DEFAULT_BINDINGS_PREFIX x))"
      "extensions m = js_or (props_field props ''extensions'') (DEFAULT_EXTENSIONS x)"
    by (auto simp: constructor_object)
  from m have fixed: "path m = JUndefined" "\<not> writeToPackageJson m" "\<not> writeToBitJson m"
    by (auto simp: constructor_object)
  from m have unset: "dependencies m = JUndefined" "devDependencies m = JUndefined"
      "compilerDependencies m = JUndefined" "testerDependencies m = JUndefined"
    by (auto simp: constructor_object)
  have ign: "constructor x (JObj (filter (\<lambda>(k, v). k \<notin> dependency_props) props)) = Inr m"
    by (simp add: constructor_filter m)
  have add1: "dependencies (addDependency toObject m bitId) = R_merge JUndefined (toObject bitId)"
    for bitId
    by (simp add: addDependency_def unset)
  have add2: "dependencies (addDependency toObject m bitId) = JObj kvs"
    if "toObject bitId = JObj kvs" "enumeration_order kvs" for bitId kvs
    using that by (simp add: add1 R_merge_undefined)
  have add3: "dependencies (addDependencies toObject m bitIds) = R_mergeAll (map toObject bitIds)"
    for bitIds
    using unset(1) by (rule fresh_addDependencies)
  have add4: "dependencies (addDependencies toObject m [bitId]) = JObj kvs"
    if "toObject bitId = JObj kvs" "enumeration_order kvs" for bitId kvs
    using that by (simp add: add3 mergeAll_single)
  have add5: "\<exists>res. dependencies (addDependencies toObject m bitIds) = JObj res
                    \<and> enumeration_order res
                    \<and> map_of res
                        = foldl (\<lambda>a b. a ++ map_of (own_entries (toObject b))) Map.empty bitIds"
    if "\<forall>b \<in> set bitIds. distinct (map fst (own_entries (toObject b)))" for bitIds
    unfolding add3 using that by (rule mergeAll_lookup)
  from m taken fixed unset ign add1 add2 add3 add4 add5 show ?thesis by blast
qed

theorem constructor_leaves_dependencies_unset_witness:
  "\<exists>m. constructor sample_externals
         (JObj [(''compiler'', JStr ''babel''),
                (''lang'', JStr ''typescript''),
                (''dependencies'', JObj [(''foo@1.0.0'', JStr ''1.0.0'')])]) = Inr m
       \<and> priv_compiler m = JStr ''babel''
       \<and> priv_tester m = JObj []
       \<and> lang m = JStr ''typescript''
       \<and> bindingPrefix m = JStr ''@bit''
       \<and> extensions m = JObj []
       \<and> dependencies m = JUndefined
       \<and> constructor sample_externals
            (JObj [(''compiler'', JStr ''babel''), (''lang'', JStr ''typescript'')]) = Inr m
       \<and> enumeration_order [(''foo@1.0.0'', JStr ''1.0.0'')]
       \<and> dependencies (addDependency (\<lambda>v. v) m (JObj [(''foo@1.0.0'', JStr ''1.0.0'')]))
            = JObj [(''foo@1.0.0'', JStr ''1.0.0'')]
       \<and> dependencies (addDependencies (\<lambda>v. v) m [JObj [(''foo@1.0.0'', JStr ''1.0.0'')]])
            = JObj [(''foo@1.0.0'', JStr ''1.0.0'')]"
proof -
  let ?props = "[(''compiler'', JStr ''babel''),
                 (''lang'', JStr ''typescript''),
                 (''dependencies'', JObj [(''foo@1.0.0'', JStr ''1.0.0'')])]"
  let ?d = "[(''foo@1.0.0'', JStr ''1.0.0'')]"
  have o: "enumeration_order ?d"
    by (simp add: enumeration_order_def)
  from constructor_leaves_dependencies_unset [of sample_externals ?props "\<lambda>v. v"]
  show ?thesis
  proof (elim exE conjE)
    fix m
    assume m: "constructor sample_externals (JObj ?props) = Inr m"
      and c: "priv_compiler m = js_or (props_field ?props ''compiler'') (JObj [])"
      and t: "priv_tester m = js_or (props_field ?props ''tester'') (JObj [])"
      and l: "lang m = js_or (props_field ?props ''lang'')
                         (JStr (DEFAULT_LANGUAGE sample_externals))"
      and b: "bindingPrefix m = js_or (props_field ?props ''bindingPrefix'')
                                  (JStr (DEFAULT_BINDINGS_PREFIX sample_externals))"
      and e: "extensions m = js_or (props_field ?props ''extensions'')
                               (DEFAULT_EXTENSIONS sample_externals)"
      and d: "dependencies m = JUndefined"
      and f: "constructor sample_externals
                (JObj (filter (\<lambda>(k, v). k \<notin> dependency_props) ?props)) = Inr m"
      and a1: "\<forall>bitId kvs. bitId = JObj kvs \<and> enumeration_order kvs
               \<longrightarrow> dependencies (addDependency (\<lambda>v. v) m bitId) = JObj kvs"
      and a2: "\<forall>bitId kvs. bitId = JObj kvs \<and> enumeration_order kvs
               \<longrightarrow> dependencies (addDependencies (\<lambda>v. v) m [bitId]) = JObj kvs"
    have c': "priv_compiler m = JStr ''babel''"
      using c by (simp add: props_field_def js_or_def)
    have t': "priv_tester m = JObj []"
      using t by (simp add: props_field_def js_or_def)
    have l': "lang m = JStr ''typescript''"
      using l by (simp add: props_field_def js_or_def)
    have b': "bindingPrefix m = JStr ''@bit''"
      using b by (simp add: props_field_def js_or_def sample_externals_def)
    have e': "extensions m = JObj []"
      using e by (simp add: props_field_def js_or_def sample_externals_def)
    have f': "constructor sample_externals
                (JObj [(''compiler'', JStr ''babel''), (''lang'', JStr ''typescript'')]) = Inr m"
      using f by (simp add: dependency_props_def)
    from a1 o have r1: "dependencies (addDependency (\<lambda>v. v) m (JObj ?d)) = JObj ?d"
      by simp
    from a2 o have r2: "dependencies (addDependencies (\<lambda>v. v) m [JObj ?d]) = JObj ?d"
      by simp
    show ?thesis
      by (rule exI [of _ m]) (intro conjI, (fact m c' t' l' b' e' d f' o r1 r2)+)
  qed
qed

section \<open>The canonical plain object\<close>

lemma entry_fields_readable:
  "e \<noteq> JUndefined \<Longrightarrow> e \<noteq> JNull \<Longrightarrow> \<exists>v. js_prop e k = Inr v"
  by (cases e) (simp_all del: own_entries.simps split: option.split)

lemma backward_form_defined:
  assumes "readable_env_set (getEnvsByType x m ty)"
  shows "\<exists>r. getBackwardCompatibleEnv x m ty = Inr r"
proof (cases "getEnvsByType x m ty")
  case JUndefined
  then show ?thesis by (simp add: getBackwardCompatibleEnv_def)
next
  case (JObj kvs)
  show ?thesis
  proof (cases "length kvs = 1")
    case False
    then show ?thesis by (simp add: getBackwardCompatibleEnv_def JObj)
  next
    case True
    then obtain k e where kvs: "kvs = [(k, e)]"
      by (cases kvs) auto
    from assms have e: "e \<noteq> JUndefined" "e \<noteq> JNull"
      by (simp_all add: JObj kvs)
    obtain rc op fl where f: "js_prop e ''rawConfig'' = Inr rc" "js_prop e ''options'' = Inr op"
        "js_prop e ''files'' = Inr fl"
      using entry_fields_readable [OF e] by metis
    show ?thesis
      by (auto simp: getBackwardCompatibleEnv_def JObj kvs first_key_def f Let_def)
  qed
qed (use assms in simp_all)

lemma toPlainObject_defined:
  assumes "readable_env_set (compiler x m)" "readable_env_set (tester x m)"
  shows "\<exists>r. toPlainObject x m = Inr r"
proof -
  have "readable_env_set (getEnvsByType x m ty)" for ty
    using assms by (simp add: getEnvsByType_def)
  from backward_form_defined [OF this] backward_form_defined [OF this]
  obtain c t where "getBackwardCompatibleEnv x m (JStr (COMPILER_ENV_TYPE x)) = Inr c"
    "getBackwardCompatibleEnv x m (JStr (TESTER_ENV_TYPE x)) = Inr t"
    by metis
  then show ?thesis by (simp add: toPlainObject_def)
qed
lemma filter_candidate:
  "filterObject
     [(''lang'', l), (''bindingPrefix'', b), (''env'', JObj [(''compiler'', c), (''tester'', t)]),
      (''dependencies'', d), (''extensions'', ex)]
     (isPropDefaultOrNull x)
   = JObj ((if truthy l \<and> l \<noteq> JStr (DEFAULT_LANGUAGE x) then [(''lang'', l)] else [])
         @ (if truthy b \<and> b \<noteq> JStr (DEFAULT_BINDINGS_PREFIX x) then [(''bindingPrefix'', b)] else [])
         @ [(''env'', JObj [(''compiler'', c), (''tester'', t)])]
         @ (if truthy d then [(''dependencies'', d)] else [])
         @ (if truthy ex \<and> \<not> R_equals ex (DEFAULT_EXTENSIONS x) then [(''extensions'', ex)] else []))"
  by (simp add: filterObject_def isPropDefaultOrNull_def)

lemma absent_env_form:
  "getEnvsByType x m ty = JUndefined \<Longrightarrow> getBackwardCompatibleEnv x m ty = Inr JUndefined"
  by (simp add: getBackwardCompatibleEnv_def)

lemma no_envs_by_type:
  "compiler x m = JUndefined \<Longrightarrow> tester x m = JUndefined \<Longrightarrow> getEnvsByType x m ty = JUndefined"
  by (simp add: getEnvsByType_def)

text \<open>
  C1, as the code has it. The plain object holds, in this order: lang and bindingPrefix
  when truthy and different from their defaults, the key env always (its value holds the
  compiler and the tester in backward-compatible form, each possibly undefined),
  dependencies when truthy, and extensions when truthy and not equal to the default set.
  In particular a model with the default language, prefix and extensions, no environment
  and a dependencies mapping yields the two keys env and dependencies. The plain object
  exists whenever the entries of both environment sets can be read.
\<close>

theorem toPlainObject_filters_defaults:
  "(\<forall>c t. getBackwardCompatibleEnv x m (JStr (COMPILER_ENV_TYPE x)) = Inr c
          \<and> getBackwardCompatibleEnv x m (JStr (TESTER_ENV_TYPE x)) = Inr t
      \<longrightarrow> toPlainObject x m =
            Inr (JObj
              ((if truthy (lang m) \<and> lang m \<noteq> JStr (DEFAULT_LANGUAGE x)
                then [(''lang'', lang m)] else [])
             @ (if truthy (bindingPrefix m) \<and> bindingPrefix m \<noteq> JStr (DEFAULT_BINDINGS_PREFIX x)
                then [(''bindingPrefix'', bindingPrefix m)] else [])
             @ [(''env'', JObj [(''compiler'', c), (''tester'', t)])]
             @ (if truthy (dependencies m) then [(''dependencies'', dependencies m)] else [])
             @ (if truthy (extensions m) \<and> \<not> R_equals (extensions m) (DEFAULT_EXTENSIONS x)
                then [(''extensions'', extensions m)] else []))))
   \<and> (lang m = JStr (DEFAULT_LANGUAGE x) \<and> bindingPrefix m = JStr (DEFAULT_BINDINGS_PREFIX x)
        \<and> R_equals (extensions m) (DEFAULT_EXTENSIONS x)
        \<and> compiler x m = JUndefined \<and> tester x m = JUndefined \<and> truthy (dependencies m)
      \<longrightarrow> toPlainObject x m =
            Inr (JObj [(''env'', JObj [(''compiler'', JUndefined), (''tester'', JUndefined)]),
                       (''dependencies'', dependencies m)]))
   \<and> (readable_env_set (compiler x m) \<and> readable_env_set (tester x m)
      \<longrightarrow> (\<exists>r. toPlainObject x m = Inr r))"
proof -
  have general: "toPlainObject x m =
            Inr (JObj
              ((if truthy (lang m) \<and> lang m \<noteq> JStr (DEFAULT_LANGUAGE x)
                then [(''lang'', lang m)] else [])
             @ (if truthy (bindingPrefix m) \<and> bindingPrefix m \<noteq> JStr (DEFAULT_BINDINGS_PREFIX x)
                then [(''bindingPrefix'', bindingPrefix m)] else [])
             @ [(''env'', JObj [(''compiler'', c), (''tester'', t)])]
             @ (if truthy (dependencies m) then [(''dependencies'', dependencies m)] else [])
             @ (if truthy (extensions m) \<and> \<not> R_equals (extensions m) (DEFAULT_EXTENSIONS x)
                then [(''extensions'', extensions m)] else [])))"
    if c: "getBackwardCompatibleEnv x m (JStr (COMPILER_ENV_TYPE x)) = Inr c"
      and t: "getBackwardCompatibleEnv x m (JStr (TESTER_ENV_TYPE x)) = Inr t" for c t
    unfolding toPlainObject_def c t and_then_Inr filter_candidate ..
  have particular: "toPlainObject x m =
            Inr (JObj [(''env'', JObj [(''compiler'', JUndefined), (''tester'', JUndefined)]),
                       (''dependencies'', dependencies m)])"
    if l: "lang m = JStr (DEFAULT_LANGUAGE x)"
      and b: "bindingPrefix m = JStr (DEFAULT_BINDINGS_PREFIX x)"
      and e: "R_equals (extensions m) (DEFAULT_EXTENSIONS x)"
      and nc: "compiler x m = JUndefined" and nt: "tester x m = JUndefined"
      and d: "truthy (dependencies m)"
  proof -
    have c: "getBackwardCompatibleEnv x m (JStr (COMPILER_ENV_TYPE x)) = Inr JUndefined"
      by (rule absent_env_form) (rule no_envs_by_type [OF nc nt])
    have t: "getBackwardCompatibleEnv x m (JStr (TESTER_ENV_TYPE x)) = Inr JUndefined"
      by (rule absent_env_form) (rule no_envs_by_type [OF nc nt])
    show ?thesis
      unfolding general [OF c t] using l b e d by simp
  qed
  from general particular toPlainObject_defined [of x m] show ?thesis by blast
qed

lemma deps_config_envs:
  "compiler sample_externals deps_config = JUndefined"
  "tester sample_externals deps_config = JUndefined"
  by (simp_all add: compiler_def tester_def transformEnvToObject_def R_isEmpty_def
      deps_config_def fresh_config_def)

lemma deps_config_fields:
  "lang deps_config = JStr (DEFAULT_LANGUAGE sample_externals)"
  "bindingPrefix deps_config = JStr (DEFAULT_BINDINGS_PREFIX sample_externals)"
  "extensions deps_config = JObj []"
  "DEFAULT_EXTENSIONS sample_externals = JObj []"
  "dependencies deps_config = JObj [(''foo@1.0.0'', JStr ''1.0.0'')]"
  by (simp_all add: deps_config_def fresh_config_def sample_externals_def)

theorem toPlainObject_filters_defaults_witness:
  "lang deps_config = JStr (DEFAULT_LANGUAGE sample_externals)
   \<and> bindingPrefix deps_config = JStr (DEFAULT_BINDINGS_PREFIX sample_externals)
   \<and> R_equals (extensions deps_config) (DEFAULT_EXTENSIONS sample_externals)
   \<and> compiler sample_externals deps_config = JUndefined
   \<and> tester sample_externals deps_config = JUndefined
   \<and> truthy (dependencies deps_config)
   \<and> readable_env_set (compiler sample_externals deps_config)
   \<and> readable_env_set (tester sample_externals deps_config)
   \<and> toPlainObject sample_externals deps_config =
        Inr (JObj [(''env'', JObj [(''compiler'', JUndefined), (''tester'', JUndefined)]),
                   (''dependencies'', JObj [(''foo@1.0.0'', JStr ''1.0.0'')])])"
proof -
  have e: "R_equals (extensions deps_config) (DEFAULT_EXTENSIONS sample_externals)"
    by (simp add: deps_config_fields)
  have d: "truthy (dependencies deps_config)"
    by (simp add: deps_config_fields)
  from toPlainObject_filters_defaults [of sample_externals deps_config]
    deps_config_fields(1,2) e deps_config_envs d
  have "toPlainObject sample_externals deps_config =
        Inr (JObj [(''env'', JObj [(''compiler'', JUndefined), (''tester'', JUndefined)]),
                   (''dependencies'', dependencies deps_config)])"
    by blast
  with deps_config_fields(1,2,5) e deps_config_envs d show ?thesis
    by simp
qed

text \<open>
  The specification's example: the constructor maps its props to the fresh model, and
  \<open>deps_config\<close> is that model with the dependencies of the example stored.
\<close>

lemma spec_example_constructor:
  "constructor sample_externals
     (JObj [(''lang'', JStr ''javascript''), (''bindingPrefix'', JStr ''@bit''),
            (''dependencies'', JObj [(''foo@1.0.0'', JStr ''1.0.0'')])]) = Inr fresh_config"
  by (simp add: constructor_def js_or_def sample_externals_def fresh_config_def)

text \<open>
  C1 as stated fails: for that model the plain object has the key env beside dependencies,
  so it is not the object with dependencies alone.
\<close>

theorem toPlainObject_counterexample:
  "toPlainObject sample_externals deps_config
     = Inr (JObj [(''env'', JObj [(''compiler'', JUndefined), (''tester'', JUndefined)]),
                  (''dependencies'', JObj [(''foo@1.0.0'', JStr ''1.0.0'')])])
   \<and> \<not> R_equals
         (JObj [(''env'', JObj [(''compiler'', JUndefined), (''tester'', JUndefined)]),
                (''dependencies'', JObj [(''foo@1.0.0'', JStr ''1.0.0'')])])
         (JObj [(''dependencies'', JObj [(''foo@1.0.0'', JStr ''1.0.0'')])])"
proof -
  have c: "getBackwardCompatibleEnv sample_externals deps_config
             (JStr (COMPILER_ENV_TYPE sample_externals)) = Inr JUndefined"
    by (rule absent_env_form) (rule no_envs_by_type [OF deps_config_envs])
  have t: "getBackwardCompatibleEnv sample_externals deps_config
             (JStr (TESTER_ENV_TYPE sample_externals)) = Inr JUndefined"
    by (rule absent_env_form) (rule no_envs_by_type [OF deps_config_envs])
  show ?thesis
    unfolding toPlainObject_def c t and_then_Inr filter_candidate
    by (simp add: deps_config_fields)
qed


end
